theory Spec2Isabelle
  imports Main
begin

section \<open>The Point Tracker chart: data model\<close>

text \<open>
  The component \<open>ActivityGraph\<close> (src/components/Dashboard/ActivityGraph.tsx) derives the
  data of a line chart from an activity feed or, failing that, from a timeline, and shifts
  the cumulative series so that it ends at the total supplied by the data provider.

  Numbers: the point counts of the feed and of the timeline and the total are integers,
  held by JavaScript in IEEE doubles. They are \<open>int\<close> here (no \<open>NaN\<close>, no infinity). The
  sums of the grouping and of the running totals are the exact sums, which is what the
  code computes as long as they are safe integers (below \<open>2 ^ 53\<close> in absolute value).
  The adjustment to the total is where a safe total and small points already leave that
  range, so its subtraction and its additions round as doubles do (\<open>numSub\<close>, \<open>numAdd\<close>),
  and what is proved about the adjusted values is stated for safe integers. A value that
  may be \<open>undefined\<close> is an \<open>option\<close>, with \<open>None\<close> for \<open>undefined\<close>.
\<close>

record ActivityFeedItem =
  timestamp :: string
  type :: string
  points_change :: int

record DailyBucket =
  points :: int
  activities :: int
  redemptions :: int
  redeemed :: int
  date :: string

record TimelineRow =
  date :: string
  points_earned :: "int option"
  points_redeemed :: "int option"
  redemptions_count :: "int option"

text \<open>
  The objects handed to the chart. The timeline branch builds them without the field
  \<open>dataSource\<close>, which is \<open>None\<close> then.
\<close>

record ChartPoint =
  name :: string
  Points :: int
  Daily :: int
  Redeemed :: int
  Net :: int
  Redemptions :: int
  rawDate :: string
  dataSource :: "string option"

text \<open>
  The double nearest to an integer: an integer of at most 53 bits is a double; a longer
  one keeps its 53 leading bits, rounded to nearest, ties to the even significand
  (overflow to infinity, beyond \<open>2 ^ 1024\<close>, is not modelled).
\<close>

function bitLength :: "int \<Rightarrow> nat" where
  "bitLength a = (if a \<le> 0 then 0 else Suc (bitLength (a div 2)))"
  by auto

termination
  by (relation "measure nat") auto

definition roundDouble :: "int \<Rightarrow> int" where
  "roundDouble x =
     (let a = \<bar>x\<bar>; n = bitLength a
      in if n \<le> 53 then x
         else
           (let s = n - 53;
                q = a div 2 ^ s;
                r = a mod 2 ^ s;
                half = 2 ^ (s - 1);
                q' = (if r > half \<or> (r = half \<and> odd q) then q + 1 else q)
            in sgn x * (q' * 2 ^ s)))"

text \<open>\<open>a + b\<close> and \<open>a - b\<close> on doubles holding integers: the exact result, rounded.\<close>

definition numAdd :: "int \<Rightarrow> int \<Rightarrow> int" where
  "numAdd a b = roundDouble (a + b)"

definition numSub :: "int \<Rightarrow> int \<Rightarrow> int" where
  "numSub a b = roundDouble (a - b)"

text \<open>\<open>x || 0\<close> on a number that may be \<open>undefined\<close>: both \<open>undefined\<close> and \<open>0\<close> give \<open>0\<close>.\<close>

definition orZero :: "int option \<Rightarrow> int" where
  "orZero x = (case x of None \<Rightarrow> 0 | Some v \<Rightarrow> if v = 0 then 0 else v)"


section \<open>Strings and dates of the platform\<close>

text \<open>\<open>s.split(sep)\<close> for a separator of one character; the result is never empty.\<close>

fun splitOn :: "char \<Rightarrow> string \<Rightarrow> string list" where
  "splitOn sep [] = [[]]"
| "splitOn sep (c # cs) =
     (if c = sep then [] # splitOn sep cs
      else (case splitOn sep cs of [] \<Rightarrow> [[c]] | p # ps \<Rightarrow> (c # p) # ps))"

definition digitVal :: "char \<Rightarrow> int option" where
  "digitVal = map_of
     [(CHR ''0'', 0), (CHR ''1'', 1), (CHR ''2'', 2), (CHR ''3'', 3), (CHR ''4'', 4),
      (CHR ''5'', 5), (CHR ''6'', 6), (CHR ''7'', 7), (CHR ''8'', 8), (CHR ''9'', 9)]"

definition isDigit :: "char \<Rightarrow> bool" where
  "isDigit c = (digitVal c \<noteq> None)"

text \<open>The value of a string of decimal digits read from the left, starting from \<open>acc\<close>.\<close>

fun digitsValue :: "int \<Rightarrow> string \<Rightarrow> int" where
  "digitsValue acc [] = acc"
| "digitsValue acc (c # cs) =
     (case digitVal c of None \<Rightarrow> acc | Some d \<Rightarrow> digitsValue (10 * acc + d) cs)"

definition isWhiteSpace :: "char \<Rightarrow> bool" where
  "isWhiteSpace c = (c \<in> set [CHR 0x09, CHR 0x0A, CHR 0x0B, CHR 0x0C, CHR 0x0D, CHR 0x20])"

text \<open>
  \<open>parseInt(s, 10)\<close>: leading white space is skipped, a sign is read, then the longest run
  of decimal digits; \<open>NaN\<close> (here \<open>None\<close>) when there is no digit.
\<close>

definition parseInt :: "string \<Rightarrow> int option" where
  "parseInt s =
     (let t = dropWhile isWhiteSpace s;
          (sign, u) = (case t of
                         [] \<Rightarrow> (1, [])
                       | c # cs \<Rightarrow> if c = CHR ''-'' then (- 1, cs)
                                  else if c = CHR ''+'' then (1, cs) else (1, t));
          ds = takeWhile isDigit u
      in if ds = [] then None else Some (sign * digitsValue 0 ds))"

definition msPerDay :: int where
  "msPerDay = 86400000"

text \<open>The day number of 1 January of year \<open>y\<close>, counted from 1 January 1970 (ECMAScript \<open>DayFromYear\<close>).\<close>

definition DayFromYear :: "int \<Rightarrow> int" where
  "DayFromYear y =
     365 * (y - 1970) + (y - 1969) div 4 - (y - 1901) div 100 + (y - 1601) div 400"

definition InLeapYear :: "int \<Rightarrow> bool" where
  "InLeapYear y = (y mod 4 = 0 \<and> (y mod 100 \<noteq> 0 \<or> y mod 400 = 0))"

text \<open>The number of days of year \<open>y\<close> before its month \<open>m\<close>, months counted from 0.\<close>

definition daysBeforeMonth :: "int \<Rightarrow> int \<Rightarrow> int" where
  "daysBeforeMonth y m =
     (let l = (if InLeapYear y then 1 else 0)
      in if m = 0 then 0 else if m = 1 then 31 else if m = 2 then 59 + l
         else if m = 3 then 90 + l else if m = 4 then 120 + l else if m = 5 then 151 + l
         else if m = 6 then 181 + l else if m = 7 then 212 + l else if m = 8 then 243 + l
         else if m = 9 then 273 + l else if m = 10 then 304 + l else 334 + l)"

definition daysInMonth :: "int \<Rightarrow> int \<Rightarrow> int" where
  "daysInMonth y m =
     (if m = 1 then (if InLeapYear y then 29 else 28)
      else if m = 3 \<or> m = 5 \<or> m = 8 \<or> m = 10 then 30 else 31)"

text \<open>
  ECMAScript \<open>MakeDay(year, month, date)\<close> on integers: months beyond 0..11 carry into the
  year, a day beyond the month carries into the following months.
\<close>

definition MakeDay :: "int \<Rightarrow> int \<Rightarrow> int \<Rightarrow> int" where
  "MakeDay year month dt =
     (let ym = year + month div 12; mn = month mod 12
      in DayFromYear ym + daysBeforeMonth ym mn + dt - 1)"

text \<open>\<open>TimeClip\<close>: a time value beyond 8.64e15 ms is \<open>NaN\<close>.\<close>

definition TimeClip :: "int \<Rightarrow> int option" where
  "TimeClip t = (if \<bar>t\<bar> > 8640000000000000 then None else Some t)"

text \<open>
  The civil date (year, month 1..12, day) of a day number: the inverse of \<open>MakeDay\<close>,
  computed era by era (an era is 400 years, 146097 days, and starts on 1 March).
\<close>

definition civilFromDays :: "int \<Rightarrow> int \<times> int \<times> int" where
  "civilFromDays days =
     (let z = days + 719468;
          era = z div 146097;
          doe = z - era * 146097;
          yoe = (doe - doe div 1460 + doe div 36524 - doe div 146096) div 365;
          y = yoe + era * 400;
          doy = doe - (365 * yoe + yoe div 4 - yoe div 100);
          mp = (5 * doy + 2) div 153;
          d = doy - (153 * mp + 2) div 5 + 1;
          m = (if mp < 10 then mp + 3 else mp - 9)
      in (if m \<le> 2 then y + 1 else y, m, d))"

text \<open>
  The local time zone of the runtime, as the number of milliseconds local time is ahead of
  UTC (ECMAScript \<open>LocalTZA\<close>). The offset is taken constant: a zone without daylight
  saving time, which is enough to tell the two formatters apart.
\<close>

type_synonym timezone = int

text \<open>
  \<open>new Date(s).getTime()\<close> for a string in the date-only form \<open>YYYY-MM-DD\<close> of the
  ECMAScript date format: midnight UTC of that day, whatever the local time zone. The
  model gives \<open>NaN\<close> (here \<open>None\<close>) for every other string: for a month outside 01..12, for
  a day beyond the end of the month (which some engines reject and others carry into the
  next month) and for strings in other forms (which engines read in ways of their own).
  What is proved about the order of dates is stated for strings that are dates of the
  calendar in this form, on which the engines agree.
\<close>

definition parseIsoDate :: "string \<Rightarrow> (int \<times> int \<times> int) option" where
  "parseIsoDate s =
     (if length s = 10 \<and> s ! 4 = CHR ''-'' \<and> s ! 7 = CHR ''-''
         \<and> list_all isDigit (take 4 s) \<and> list_all isDigit (take 2 (drop 5 s))
         \<and> list_all isDigit (drop 8 s)
      then (let y = digitsValue 0 (take 4 s);
                m = digitsValue 0 (take 2 (drop 5 s));
                d = digitsValue 0 (drop 8 s)
            in if 1 \<le> m \<and> m \<le> 12 \<and> 1 \<le> d \<and> d \<le> daysInMonth y (m - 1)
               then Some (y, m, d) else None)
      else None)"

definition getTime :: "string \<Rightarrow> int option" where
  "getTime s =
     (case parseIsoDate s of
        None \<Rightarrow> None
      | Some (y, m, d) \<Rightarrow> TimeClip (MakeDay y (m - 1) d * msPerDay))"

text \<open>
  \<open>new Date(year, month, day)\<close> with three numbers, each possibly \<open>NaN\<close>: local midnight
  of that day. A year from 0 to 99 means 1900 + year.
\<close>

definition newDateLocal :: "timezone \<Rightarrow> int option \<Rightarrow> int option \<Rightarrow> int option \<Rightarrow> int option" where
  "newDateLocal tz year month day =
     (case (year, month, day) of
        (Some y, Some m, Some d) \<Rightarrow>
          (let yr = (if 0 \<le> y \<and> y \<le> 99 then 1900 + y else y)
           in TimeClip (MakeDay yr m d * msPerDay - tz))
      | _ \<Rightarrow> None)"

definition monthShort :: "int \<Rightarrow> string" where
  "monthShort m =
     (if m = 1 then ''Jan'' else if m = 2 then ''Feb'' else if m = 3 then ''Mar''
      else if m = 4 then ''Apr'' else if m = 5 then ''May'' else if m = 6 then ''Jun''
      else if m = 7 then ''Jul'' else if m = 8 then ''Aug'' else if m = 9 then ''Sep''
      else if m = 10 then ''Oct'' else if m = 11 then ''Nov'' else ''Dec'')"

definition digitChar :: "int \<Rightarrow> char" where
  "digitChar d = ''0123456789'' ! nat d"

text \<open>The day of the month, 1 to 31, in decimal.\<close>

definition showDay :: "int \<Rightarrow> string" where
  "showDay d = (if d < 10 then [digitChar d] else [digitChar (d div 10), digitChar (d mod 10)])"

text \<open>
  \<open>date.toLocaleDateString('en-US', { month: 'short', day: 'numeric' })\<close>: the month and
  the day of the time value, read in the local time zone.
\<close>

definition toLocaleDateString :: "timezone \<Rightarrow> int option \<Rightarrow> string" where
  "toLocaleDateString tz t =
     (case t of
        None \<Rightarrow> ''Invalid Date''
      | Some v \<Rightarrow> (case civilFromDays ((v + tz) div msPerDay) of
                     (y, m, d) \<Rightarrow> monthShort m @ '' '' @ showDay d))"

text \<open>Element \<open>i\<close> of an array of numbers, \<open>undefined\<close> (then \<open>NaN\<close>) beyond its end.\<close>

definition nthNumber :: "int option list \<Rightarrow> nat \<Rightarrow> int option" where
  "nthNumber xs i = (if i < length xs then xs ! i else None)"

text \<open>\<open>formatDate\<close> of ActivityGraph.tsx (lines 27 to 34).\<close>

definition formatDate :: "timezone \<Rightarrow> string \<Rightarrow> string" where
  "formatDate tz dateString =
     (let parts = map parseInt (splitOn CHR ''-'' dateString);
          year = nthNumber parts 0;
          month = nthNumber parts 1;
          day = nthNumber parts 2;
          date = newDateLocal tz year (map_option (\<lambda>m. m - 1) month) day
      in toLocaleDateString tz date)"

text \<open>
  \<open>formatDate\<close> of the second source file (src/unnamed/part_000, lines 26 to 29), which
  hands the whole string to \<open>new Date\<close>.
\<close>

definition formatDate_part_000 :: "timezone \<Rightarrow> string \<Rightarrow> string" where
  "formatDate_part_000 tz dateString = toLocaleDateString tz (getTime dateString)"


section \<open>The series builder\<close>

subsection \<open>Grouping the activity feed by day\<close>

text \<open>
  \<open>dailyData\<close> is an object used as a dictionary from date keys to buckets. It is kept
  as the list of its own properties in the order of their creation, which is the order
  \<open>Object.values\<close> follows for keys that are not array indices.
\<close>

type_synonym dailyData = "(string \<times> DailyBucket) list"

text \<open>\<open>item.timestamp.split('T')[0]\<close>\<close>

definition dateKeyOf :: "ActivityFeedItem \<Rightarrow> string" where
  "dateKeyOf item = (case splitOn CHR ''T'' (timestamp item) of [] \<Rightarrow> [] | p # ps \<Rightarrow> p)"

text \<open>
  \<open>dailyData\<close> starts as \<open>{}\<close> and so inherits the properties of \<open>Object.prototype\<close>. For
  such a key \<open>dailyData[dateKey]\<close> is a function or an object, hence truthy: no bucket is
  created, and the two additions land on that inherited value (where they leave \<open>NaN\<close>,
  which is falsy) and never in \<open>dailyData\<close>.
\<close>

definition objectPrototypeKeys :: "string list" where
  "objectPrototypeKeys =
     [''constructor'', ''hasOwnProperty'', ''isPrototypeOf'', ''propertyIsEnumerable'',
      ''toLocaleString'', ''toString'', ''valueOf'', ''__proto__'', ''__defineGetter__'',
      ''__defineSetter__'', ''__lookupGetter__'', ''__lookupSetter__'']"

definition updateBucket :: "string \<Rightarrow> (DailyBucket \<Rightarrow> DailyBucket) \<Rightarrow> dailyData \<Rightarrow> dailyData" where
  "updateBucket k f dd = map (\<lambda>(k', b). if k' = k then (k', f b) else (k', b)) dd"

definition emptyBucket :: "string \<Rightarrow> DailyBucket" where
  "emptyBucket dateKey =
     \<lparr>points = 0, activities = 0, redemptions = 0, redeemed = 0, date = dateKey\<rparr>"

text \<open>The body of \<open>activityFeed.feed.forEach\<close> (lines 55 to 77).\<close>

definition addItem :: "dailyData \<Rightarrow> ActivityFeedItem \<Rightarrow> dailyData" where
  "addItem dailyData item =
     (let dateKey = dateKeyOf item
      in if dateKey \<in> set objectPrototypeKeys then dailyData
         else
           (let dd = (if map_of dailyData dateKey = None
                      then dailyData @ [(dateKey, emptyBucket dateKey)]
                      else dailyData)
            in if type item = ''activity'' \<and> points_change item > 0
               then updateBucket dateKey
                      (\<lambda>b. b\<lparr>points := points b + points_change item,
                              activities := activities b + 1\<rparr>) dd
               else if type item = ''redemption'' \<and> points_change item < 0
               then updateBucket dateKey
                      (\<lambda>b. b\<lparr>redeemed := redeemed b + \<bar>points_change item\<bar>,
                              redemptions := redemptions b + 1\<rparr>) dd
               else dd))"

definition groupByDay :: "ActivityFeedItem list \<Rightarrow> dailyData" where
  "groupByDay feed = foldl addItem [] feed"

text \<open>
  \<open>Object.values\<close>: the values of the keys that are array indices (canonical decimal
  numerals below \<open>2 ^ 32 - 1\<close>) come first, in ascending numeric order, then the values of
  all other keys in the order of their creation.
\<close>

definition isArrayIndex :: "string \<Rightarrow> bool" where
  "isArrayIndex k =
     (k \<noteq> [] \<and> list_all isDigit k \<and> (k = ''0'' \<or> take 1 k \<noteq> ''0'')
      \<and> digitsValue 0 k < 4294967295)"

definition objectValues :: "(string \<times> 'v) list \<Rightarrow> 'v list" where
  "objectValues kvs =
     map snd (sort_key (\<lambda>kv. digitsValue 0 (fst kv)) (filter (\<lambda>kv. isArrayIndex (fst kv)) kvs)
              @ filter (\<lambda>kv. \<not> isArrayIndex (fst kv)) kvs)"

subsection \<open>Sorting by date\<close>

text \<open>
  The comparator \<open>new Date(a).getTime() - new Date(b).getTime()\<close>. When one of the dates is
  invalid the difference is \<open>NaN\<close>, which \<open>sort\<close> reads as \<open>0\<close>.
\<close>

definition dateCmp :: "string \<Rightarrow> string \<Rightarrow> int" where
  "dateCmp a b = (case (getTime a, getTime b) of (Some x, Some y) \<Rightarrow> x - y | _ \<Rightarrow> 0)"

text \<open>
  \<open>Array.prototype.sort\<close> is stable. With a consistent comparator its result is
  determined: the elements in ascending order, equal ones in their original order.
  Stable insertion computes it. With invalid dates among the elements the comparator
  is not consistent and the order is the engine's own; what is proved about the order
  is stated for valid dates.
\<close>

fun insertSorted :: "('a \<Rightarrow> 'a \<Rightarrow> int) \<Rightarrow> 'a \<Rightarrow> 'a list \<Rightarrow> 'a list" where
  "insertSorted cmp x [] = [x]"
| "insertSorted cmp x (y # ys) =
     (if cmp x y \<le> 0 then x # y # ys else y # insertSorted cmp x ys)"

definition sortArray :: "('a \<Rightarrow> 'a \<Rightarrow> int) \<Rightarrow> 'a list \<Rightarrow> 'a list" where
  "sortArray cmp xs = foldr (insertSorted cmp) xs []"

definition sortedDays :: "ActivityFeedItem list \<Rightarrow> DailyBucket list" where
  "sortedDays feed =
     sortArray (\<lambda>a b. dateCmp (DailyBucket.date a) (DailyBucket.date b))
       (objectValues (groupByDay feed))"

definition sortedTimeline :: "TimelineRow list \<Rightarrow> TimelineRow list" where
  "sortedTimeline timeline =
     sortArray (\<lambda>a b. dateCmp (TimelineRow.date a) (TimelineRow.date b)) timeline"

subsection \<open>Cumulative totals\<close>

text \<open>
  The callback of \<open>sortedDays.map\<close> (lines 85 to 106) with the variable \<open>runningTotal\<close>
  it updates passed along.
\<close>

fun feedProgression :: "timezone \<Rightarrow> int \<Rightarrow> DailyBucket list \<Rightarrow> ChartPoint list" where
  "feedProgression tz runningTotal [] = []"
| "feedProgression tz runningTotal (day # days) =
     (let netChange = points day - redeemed day;
          total1 = runningTotal + netChange;
          total2 = (if total1 < 0 then 0 else total1)
      in \<lparr>name = formatDate tz (DailyBucket.date day), Points = total2, Daily = points day,
          Redeemed = redeemed day, Net = netChange, Redemptions = redemptions day,
          rawDate = DailyBucket.date day, dataSource = Some ''activity-feed''\<rparr>
         # feedProgression tz total2 days)"

text \<open>The callback of \<open>sortedTimeline.map\<close> (lines 129 to 146).\<close>

fun timelineProgression :: "timezone \<Rightarrow> int \<Rightarrow> TimelineRow list \<Rightarrow> ChartPoint list" where
  "timelineProgression tz runningTotal [] = []"
| "timelineProgression tz runningTotal (item # items) =
     (let dailyNet = orZero (points_earned item) - orZero (points_redeemed item);
          total1 = runningTotal + dailyNet
      in \<lparr>name = formatDate tz (TimelineRow.date item), Points = total1,
          Daily = orZero (points_earned item), Redeemed = orZero (points_redeemed item),
          Net = dailyNet, Redemptions = orZero (redemptions_count item),
          rawDate = TimelineRow.date item, dataSource = None\<rparr>
         # timelineProgression tz total1 items)"

text \<open>The two sequences before the adjustment.\<close>

definition chartDataFromFeed :: "timezone \<Rightarrow> ActivityFeedItem list \<Rightarrow> ChartPoint list" where
  "chartDataFromFeed tz feed = feedProgression tz 0 (sortedDays feed)"

definition chartDataWithProgression :: "timezone \<Rightarrow> TimelineRow list \<Rightarrow> ChartPoint list" where
  "chartDataWithProgression tz timeline = timelineProgression tz 0 (sortedTimeline timeline)"

subsection \<open>Matching the total\<close>

text \<open>\<open>pts[pts.length - 1]?.Points || 0\<close>\<close>

definition calculatedFinal :: "ChartPoint list \<Rightarrow> int" where
  "calculatedFinal pts = (if pts = [] then 0 else orZero (Some (Points (last pts))))"

text \<open>\<open>correctTotalPoints - calculatedFinal\<close> (lines 110 and 150).\<close>

definition adjustment :: "int \<Rightarrow> ChartPoint list \<Rightarrow> int" where
  "adjustment correctTotalPoints pts = numSub correctTotalPoints (calculatedFinal pts)"

text \<open>
  The loop \<open>item.Points += adjustment\<close> under \<open>Math.abs(adjustment) > 0\<close> (lines 112 to
  116 and 153 to 157).
\<close>

definition adjustPoints :: "int \<Rightarrow> ChartPoint list \<Rightarrow> ChartPoint list" where
  "adjustPoints correctTotalPoints pts =
     (if \<bar>adjustment correctTotalPoints pts\<bar> > 0
      then map (\<lambda>item. item\<lparr>Points := numAdd (Points item)
                                         (adjustment correctTotalPoints pts)\<rparr>) pts
      else pts)"

subsection \<open>The derivation\<close>

text \<open>\<open>x?.feed?.length\<close> and \<open>x?.timeline?.length\<close> as conditions: present and not empty.\<close>

definition hasLength :: "'a list option \<Rightarrow> bool" where
  "hasLength x = (case x of None \<Rightarrow> False | Some xs \<Rightarrow> xs \<noteq> [])"

definition elems :: "'a list option \<Rightarrow> 'a list" where
  "elems x = (case x of None \<Rightarrow> [] | Some xs \<Rightarrow> xs)"

text \<open>
  \<open>chartData\<close> (lines 37 to 160). \<open>timelineData\<close> and \<open>activityFeed\<close> are \<open>None\<close> when the
  data provider has not supplied the object, and hold its array \<open>timeline\<close> or \<open>feed\<close>
  otherwise.
\<close>

definition chartData ::
  "timezone \<Rightarrow> TimelineRow list option \<Rightarrow> ActivityFeedItem list option \<Rightarrow> int option
   \<Rightarrow> ChartPoint list" where
  "chartData tz timelineData activityFeed totalPoints =
     (if \<not> hasLength activityFeed \<and> \<not> hasLength timelineData then []
      else
        (let correctTotalPoints = orZero totalPoints
         in if hasLength activityFeed
            then adjustPoints correctTotalPoints (chartDataFromFeed tz (elems activityFeed))
            else if \<not> hasLength timelineData then []
            else adjustPoints correctTotalPoints
                   (chartDataWithProgression tz (elems timelineData))))"

subsection \<open>Presentation\<close>

text \<open>
  What the component returns: the skeleton while loading, else the placeholder panel or
  the line chart over \<open>chartData\<close> (lines 23 to 25 and 179 to 187).
\<close>

datatype view = Skeleton | Placeholder | LineChart "ChartPoint list"

definition ActivityGraph ::
  "timezone \<Rightarrow> bool \<Rightarrow> TimelineRow list option \<Rightarrow> ActivityFeedItem list option \<Rightarrow> int option
   \<Rightarrow> view" where
  "ActivityGraph tz isLoading timelineData activityFeed totalPoints =
     (if isLoading then Skeleton
      else
        (let cd = chartData tz timelineData activityFeed totalPoints
         in if timelineData = None \<or> length cd = 0 then Placeholder else LineChart cd))"


subsection \<open>The arrays of the inputs as objects in a store\<close>

text \<open>
  \<open>chartData\<close> above takes the contents of the two input arrays. To say what the
  derivation does to the arrays themselves they are placed in a store: a list of arrays,
  an array being referred to by its position. \<open>[...timeline]\<close> allocates a new array,
  \<open>sort\<close> overwrites the array it is called on; the elements of the arrays (feed items
  and timeline rows) are never assigned to. The buckets and chart points are objects
  created by the derivation itself and stay values.
\<close>

datatype jsArray = FeedArray "ActivityFeedItem list" | TimelineArray "TimelineRow list"

type_synonym heap = "jsArray list"

type_synonym ref = nat

definition feedAt :: "heap \<Rightarrow> ref option \<Rightarrow> ActivityFeedItem list option" where
  "feedAt h r =
     (case r of
        None \<Rightarrow> None
      | Some a \<Rightarrow> if a < length h
                  then (case h ! a of FeedArray xs \<Rightarrow> Some xs | TimelineArray ys \<Rightarrow> None)
                  else None)"

definition timelineAt :: "heap \<Rightarrow> ref option \<Rightarrow> TimelineRow list option" where
  "timelineAt h r =
     (case r of
        None \<Rightarrow> None
      | Some a \<Rightarrow> if a < length h
                  then (case h ! a of FeedArray xs \<Rightarrow> None | TimelineArray ys \<Rightarrow> Some ys)
                  else None)"

text \<open>\<open>[...timeline]\<close>: a new array with the same elements.\<close>

definition spread :: "heap \<Rightarrow> ref \<Rightarrow> ref \<times> heap" where
  "spread h a = (length h, h @ [TimelineArray (elems (timelineAt h (Some a)))])"

text \<open>\<open>array.sort(comparator)\<close> on an array of timeline rows: the array is sorted in place.\<close>

definition sortInPlace :: "heap \<Rightarrow> ref \<Rightarrow> heap" where
  "sortInPlace h a =
     (case timelineAt h (Some a) of
        None \<Rightarrow> h
      | Some rows \<Rightarrow>
          h[a := TimelineArray
                   (sortArray (\<lambda>a b. dateCmp (TimelineRow.date a) (TimelineRow.date b)) rows)])"

text \<open>
  \<open>chartData\<close> on the store: \<open>timelineData\<close> and \<open>activityFeed\<close> refer to the arrays
  \<open>timelineData.timeline\<close> and \<open>activityFeed.feed\<close>; the result comes with the store
  the derivation leaves behind.
\<close>

definition chartDataH ::
  "timezone \<Rightarrow> heap \<Rightarrow> ref option \<Rightarrow> ref option \<Rightarrow> int option \<Rightarrow> ChartPoint list \<times> heap" where
  "chartDataH tz h timelineData activityFeed totalPoints =
     (if \<not> hasLength (feedAt h activityFeed) \<and> \<not> hasLength (timelineAt h timelineData)
      then ([], h)
      else
        (let correctTotalPoints = orZero totalPoints
         in if hasLength (feedAt h activityFeed)
            then (adjustPoints correctTotalPoints
                    (chartDataFromFeed tz (elems (feedAt h activityFeed))), h)
            else if \<not> hasLength (timelineAt h timelineData) then ([], h)
            else
              (case timelineData of
                 None \<Rightarrow> ([], h)
               | Some timeline \<Rightarrow>
                   (let (copy, h1) = spread h timeline;
                        h2 = sortInPlace h1 copy;
                        sortedTimeline = elems (timelineAt h2 (Some copy))
                    in (adjustPoints correctTotalPoints
                          (timelineProgression tz 0 sortedTimeline), h2)))))"


section \<open>Predicates and inputs used to state the properties\<close>

subsection \<open>Predicates\<close>

text \<open>
  \<open>out\<close> is \<open>pre\<close> with \<open>adj\<close> added to the \<open>Points\<close> of every element and nothing else
  changed; the differences of consecutive \<open>Points\<close> are then the same.
\<close>

definition shiftedBy :: "int \<Rightarrow> ChartPoint list \<Rightarrow> ChartPoint list \<Rightarrow> bool" where
  "shiftedBy adj pre out =
     (length out = length pre
      \<and> (\<forall>i < length pre.
            Points (out ! i) = Points (pre ! i) + adj
            \<and> Daily (out ! i) = Daily (pre ! i)
            \<and> Redeemed (out ! i) = Redeemed (pre ! i)
            \<and> Net (out ! i) = Net (pre ! i)
            \<and> Redemptions (out ! i) = Redemptions (pre ! i)
            \<and> name (out ! i) = name (pre ! i)
            \<and> rawDate (out ! i) = rawDate (pre ! i)
            \<and> dataSource (out ! i) = dataSource (pre ! i))
      \<and> (\<forall>i < length pre - 1.
            Points (out ! (i + 1)) - Points (out ! i)
              = Points (pre ! (i + 1)) - Points (pre ! i)))"

text \<open>The same sequence but for the \<open>Points\<close> of its elements.\<close>

definition sameExceptPoints :: "ChartPoint list \<Rightarrow> ChartPoint list \<Rightarrow> bool" where
  "sameExceptPoints pre out =
     (length out = length pre
      \<and> (\<forall>i < length pre.
            Daily (out ! i) = Daily (pre ! i)
            \<and> Redeemed (out ! i) = Redeemed (pre ! i)
            \<and> Net (out ! i) = Net (pre ! i)
            \<and> Redemptions (out ! i) = Redemptions (pre ! i)
            \<and> name (out ! i) = name (pre ! i)
            \<and> rawDate (out ! i) = rawDate (pre ! i)
            \<and> dataSource (out ! i) = dataSource (pre ! i)))"

text \<open>
  The sequence the derivation has built when it reaches the adjustment:
  \<open>chartDataFromFeed\<close> in the activity-feed branch, \<open>chartDataWithProgression\<close> in the
  timeline branch.
\<close>

definition chartDataBeforeAdjustment ::
  "timezone \<Rightarrow> TimelineRow list option \<Rightarrow> ActivityFeedItem list option \<Rightarrow> ChartPoint list" where
  "chartDataBeforeAdjustment tz timelineData activityFeed =
     (if hasLength activityFeed then chartDataFromFeed tz (elems activityFeed)
      else if hasLength timelineData then chartDataWithProgression tz (elems timelineData)
      else [])"

text \<open>
  Safe integers (\<open>Number.isSafeInteger\<close>): on them the arithmetic of doubles is exact.
  \<open>safeValues\<close>: the total, every number of the sequence before the adjustment and the
  difference between the total and the last \<open>Points\<close> are safe, so that the sums that
  built the sequence and the subtraction of the adjustment have not rounded.
  \<open>safeAfterAdjustment\<close>: so is every \<open>Points\<close> with that difference added.
\<close>

definition safeInteger :: "int \<Rightarrow> bool" where
  "safeInteger x = (\<bar>x\<bar> \<le> 9007199254740991)"

definition safeValues :: "int \<Rightarrow> ChartPoint list \<Rightarrow> bool" where
  "safeValues correctTotalPoints pre =
     (safeInteger correctTotalPoints \<and> safeInteger (correctTotalPoints - calculatedFinal pre)
      \<and> list_all (\<lambda>p. safeInteger (Points p) \<and> safeInteger (Daily p)
                        \<and> safeInteger (Redeemed p) \<and> safeInteger (Net p)) pre)"

definition safeAfterAdjustment :: "int \<Rightarrow> ChartPoint list \<Rightarrow> bool" where
  "safeAfterAdjustment correctTotalPoints pre =
     list_all (\<lambda>p. safeInteger (Points p + (correctTotalPoints - calculatedFinal pre))) pre"

text \<open>The extra day of a leap year.\<close>

definition leapDay :: "int \<Rightarrow> int" where
  "leapDay y = (if InLeapYear y then 1 else 0)"

text \<open>The order of two date strings by their time values; invalid dates are not ordered.\<close>

definition dateBefore :: "string \<Rightarrow> string \<Rightarrow> bool" where
  "dateBefore a b = (case (getTime a, getTime b) of (Some x, Some y) \<Rightarrow> x < y | _ \<Rightarrow> False)"

definition dateNotAfter :: "string \<Rightarrow> string \<Rightarrow> bool" where
  "dateNotAfter a b = (case (getTime a, getTime b) of (Some x, Some y) \<Rightarrow> x \<le> y | _ \<Rightarrow> False)"

text \<open>A date string that is a date of the calendar in the form \<open>YYYY-MM-DD\<close>.\<close>

definition validDate :: "string \<Rightarrow> bool" where
  "validDate s = (getTime s \<noteq> None)"

text \<open>Every bucket of the dictionary carries its key as its date.\<close>

definition datesMatchKeys :: "dailyData \<Rightarrow> bool" where
  "datesMatchKeys dd = list_all (\<lambda>kb. DailyBucket.date (snd kb) = fst kb) dd"

text \<open>
  The output in ascending order of the time values of its raw dates, with and without
  equal neighbours allowed.
\<close>

definition ascendingByDate :: "ChartPoint list \<Rightarrow> bool" where
  "ascendingByDate pts = sorted_wrt (\<lambda>p q. dateNotAfter (rawDate p) (rawDate q)) pts"

definition strictlyAscendingByDate :: "ChartPoint list \<Rightarrow> bool" where
  "strictlyAscendingByDate pts = sorted_wrt (\<lambda>p q. dateBefore (rawDate p) (rawDate q)) pts"

text \<open>The two conditions under which the loop over the feed counts an item.\<close>

definition countsAsEarning :: "ActivityFeedItem \<Rightarrow> bool" where
  "countsAsEarning item = (type item = ''activity'' \<and> points_change item > 0)"

definition countsAsRedemption :: "ActivityFeedItem \<Rightarrow> bool" where
  "countsAsRedemption item = (type item = ''redemption'' \<and> points_change item < 0)"

text \<open>
  The bucket of date key \<open>k\<close> as sums and counts over the counted items of that date,
  and the condition for the dictionary to hold a bucket for \<open>k\<close>.
\<close>

definition bucketOf :: "string \<Rightarrow> ActivityFeedItem list \<Rightarrow> DailyBucket" where
  "bucketOf k feed =
     \<lparr>points = sum_list (map points_change
                 (filter (\<lambda>i. dateKeyOf i = k \<and> countsAsEarning i) feed)),
      activities = int (length (filter (\<lambda>i. dateKeyOf i = k \<and> countsAsEarning i) feed)),
      redemptions = int (length (filter (\<lambda>i. dateKeyOf i = k \<and> countsAsRedemption i) feed)),
      redeemed = sum_list (map (\<lambda>i. \<bar>points_change i\<bar>)
                   (filter (\<lambda>i. dateKeyOf i = k \<and> countsAsRedemption i) feed)),
      date = k\<rparr>"

definition hasBucket :: "string \<Rightarrow> ActivityFeedItem list \<Rightarrow> bool" where
  "hasBucket k feed = (k \<in> dateKeyOf ` set feed \<and> k \<notin> set objectPrototypeKeys)"

subsection \<open>Inputs of the scenarios\<close>

definition scenario1_feed :: "ActivityFeedItem list" where
  "scenario1_feed =
     [\<lparr>timestamp = ''2025-09-07T10:00:00Z'', type = ''activity'', points_change = 10\<rparr>,
      \<lparr>timestamp = ''2025-09-07T15:30:00Z'', type = ''activity'', points_change = 5\<rparr>,
      \<lparr>timestamp = ''2025-09-08T09:00:00Z'', type = ''redemption'', points_change = - 3\<rparr>]"

definition scenario3_timeline :: "TimelineRow list" where
  "scenario3_timeline =
     [\<lparr>TimelineRow.date = ''2025-09-08'', points_earned = Some 5, points_redeemed = Some 8,
       redemptions_count = None\<rparr>]"


definition drift_feed :: "ActivityFeedItem list" where
  "drift_feed =
     [\<lparr>timestamp = ''2025-09-07T10:00:00Z'', type = ''activity'', points_change = 2\<rparr>,
      \<lparr>timestamp = ''2025-09-08T09:00:00Z'', type = ''activity'', points_change = 10\<rparr>]"


definition redeemed_two_timeline :: "TimelineRow list" where
  "redeemed_two_timeline =
     [\<lparr>TimelineRow.date = ''2025-09-08'', points_earned = Some 0, points_redeemed = Some 2,
       redemptions_count = None\<rparr>]"

definition five_then_three_timeline :: "TimelineRow list" where
  "five_then_three_timeline =
     [\<lparr>TimelineRow.date = ''2025-09-07'', points_earned = Some 5, points_redeemed = None,
       redemptions_count = None\<rparr>,
      \<lparr>TimelineRow.date = ''2025-09-08'', points_earned = None, points_redeemed = Some 2,
       redemptions_count = None\<rparr>]"

definition unsorted_timeline :: "TimelineRow list" where
  "unsorted_timeline =
     [\<lparr>TimelineRow.date = ''2025-09-08'', points_earned = Some 5, points_redeemed = Some 8,
       redemptions_count = None\<rparr>,
      \<lparr>TimelineRow.date = ''2025-09-07'', points_earned = Some 4, points_redeemed = None,
       redemptions_count = None\<rparr>]"

definition unordered_feed :: "ActivityFeedItem list" where
  "unordered_feed =
     [\<lparr>timestamp = ''2025-09-08T10:00:00Z'', type = ''activity'', points_change = 10\<rparr>,
      \<lparr>timestamp = ''2025-09-07T15:30:00Z'', type = ''activity'', points_change = 2\<rparr>,
      \<lparr>timestamp = ''2025-09-08T18:00:00Z'', type = ''redemption'', points_change = - 3\<rparr>]"

definition duplicate_timeline :: "TimelineRow list" where
  "duplicate_timeline =
     [\<lparr>TimelineRow.date = ''2025-09-08'', points_earned = Some 5, points_redeemed = None,
       redemptions_count = None\<rparr>,
      \<lparr>TimelineRow.date = ''2025-09-08'', points_earned = Some 4, points_redeemed = None,
       redemptions_count = None\<rparr>]"

definition earning_item :: ActivityFeedItem where
  "earning_item =
     \<lparr>timestamp = ''2025-09-07T10:00:00Z'', type = ''activity'', points_change = 10\<rparr>"

definition uncounted_activity :: ActivityFeedItem where
  "uncounted_activity =
     \<lparr>timestamp = ''2025-09-08T12:00:00Z'', type = ''activity'', points_change = - 5\<rparr>"

definition uncounted_redemption :: ActivityFeedItem where
  "uncounted_redemption =
     \<lparr>timestamp = ''2025-09-07T12:00:00Z'', type = ''redemption'', points_change = 5\<rparr>"


section \<open>Properties of the adjustment\<close>

lemma bitLength_le: "a < 2 ^ k \<Longrightarrow> bitLength a \<le> k"
proof (induction k arbitrary: a)
  case 0
  then show ?case by (subst bitLength.simps) simp
next
  case (Suc k)
  show ?case
  proof (cases "a \<le> 0")
    case True
    then show ?thesis by (subst bitLength.simps) simp
  next
    case False
    from Suc.prems have "a div 2 < 2 ^ k" by simp
    then have "bitLength (a div 2) \<le> k" by (rule Suc.IH)
    with False show ?thesis by (subst bitLength.simps) simp
  qed
qed

lemma roundDouble_safe: "safeInteger x \<Longrightarrow> roundDouble x = x"
proof -
  assume "safeInteger x"
  then have "\<bar>x\<bar> < 2 ^ 53" by (simp add: safeInteger_def)
  then have "bitLength \<bar>x\<bar> \<le> 53" by (rule bitLength_le)
  then show ?thesis by (simp add: roundDouble_def Let_def)
qed

lemma numAdd_safe: "safeInteger (a + b) \<Longrightarrow> numAdd a b = a + b"
  by (simp add: numAdd_def roundDouble_safe)

lemma numSub_safe: "safeInteger (a - b) \<Longrightarrow> numSub a b = a - b"
  by (simp add: numSub_def roundDouble_safe)

lemma adjustPoints_map:
  "adjustPoints c pts =
     map (\<lambda>item. item\<lparr>Points := (if adjustment c pts = 0 then Points item
                                    else numAdd (Points item) (adjustment c pts))\<rparr>) pts"
  by (simp add: adjustPoints_def map_idI)

lemma adjustPoints_length: "length (adjustPoints c pts) = length pts"
  by (simp add: adjustPoints_map)

lemma adjustPoints_Nil_iff: "adjustPoints c pts = [] \<longleftrightarrow> pts = []"
  by (simp add: adjustPoints_map)

lemma adjustment_safe:
  "safeValues c pts \<Longrightarrow> adjustment c pts = c - calculatedFinal pts"
  by (simp add: adjustment_def safeValues_def numSub_safe)

lemma adjustPoints_last:
  assumes "pts \<noteq> []" and "safeValues c pts"
  shows "Points (last (adjustPoints c pts)) = c"
proof -
  have final: "calculatedFinal pts = Points (last pts)"
    using assms(1) by (simp add: calculatedFinal_def orZero_def)
  have adj: "adjustment c pts = c - Points (last pts)"
    using adjustment_safe [OF assms(2)] final by simp
  have "safeInteger c" using assms(2) by (simp add: safeValues_def)
  then have "numAdd (Points (last pts)) (c - Points (last pts)) = c"
    by (simp add: numAdd_def roundDouble_safe)
  then show ?thesis
    using assms(1) adj by (simp add: adjustPoints_map last_map)
qed

lemma chartData_cases:
  "chartData tz timelineData activityFeed totalPoints =
     (if hasLength activityFeed
      then adjustPoints (orZero totalPoints) (chartDataFromFeed tz (elems activityFeed))
      else if hasLength timelineData
      then adjustPoints (orZero totalPoints) (chartDataWithProgression tz (elems timelineData))
      else [])"
  by (simp add: chartData_def Let_def)

lemma chartData_adjusts:
  "chartData tz timelineData activityFeed totalPoints
     = adjustPoints (orZero totalPoints) (chartDataBeforeAdjustment tz timelineData activityFeed)"
  by (simp add: chartData_cases chartDataBeforeAdjustment_def adjustPoints_def)

lemma orZero_case: "orZero x = (case x of None \<Rightarrow> 0 | Some t \<Rightarrow> t)"
  by (simp add: orZero_def split: option.splits)

text \<open>
  Claim C1, as amended. Whenever the derived sequence is not empty, whichever branch
  produced it, and the total, the numbers of the sequence before the adjustment and the
  difference between the total and the last \<open>Points\<close> before the adjustment are safe
  integers, the \<open>Points\<close> of the last element is the supplied \<open>totalPoints\<close>, read as 0
  when it is undefined.
\<close>

theorem last_point_equals_totalPoints:
  "chartData tz timelineData activityFeed totalPoints \<noteq> [] \<Longrightarrow>
   safeValues (orZero totalPoints) (chartDataBeforeAdjustment tz timelineData activityFeed) \<Longrightarrow>
   Points (last (chartData tz timelineData activityFeed totalPoints))
     = (case totalPoints of None \<Rightarrow> 0 | Some t \<Rightarrow> t)"
  unfolding chartData_adjusts
  by (simp add: adjustPoints_Nil_iff adjustPoints_last orZero_case)

theorem last_point_equals_totalPoints_witness:
  "chartData 0 None (Some scenario1_feed) (Some 20) \<noteq> []
   \<and> safeValues (orZero (Some 20)) (chartDataBeforeAdjustment 0 None (Some scenario1_feed))
   \<and> Points (last (chartData 0 None (Some scenario1_feed) (Some 20))) = 20
   \<and> chartData 0 (Some scenario3_timeline) None None \<noteq> []
   \<and> safeValues (orZero None) (chartDataBeforeAdjustment 0 (Some scenario3_timeline) None)
   \<and> Points (last (chartData 0 (Some scenario3_timeline) None None)) = 0"
proof -
  have feed: "chartData 0 None (Some scenario1_feed) (Some 20) \<noteq> []"
    by code_simp
  have feed_safe:
    "safeValues (orZero (Some 20)) (chartDataBeforeAdjustment 0 None (Some scenario1_feed))"
    by code_simp
  have timeline: "chartData 0 (Some scenario3_timeline) None None \<noteq> []"
    by code_simp
  have timeline_safe:
    "safeValues (orZero None) (chartDataBeforeAdjustment 0 (Some scenario3_timeline) None)"
    by code_simp
  show ?thesis
    using feed feed_safe timeline timeline_safe
      last_point_equals_totalPoints [OF feed feed_safe]
      last_point_equals_totalPoints [OF timeline timeline_safe]
    by simp
qed

text \<open>
  The claim as stated fails beyond the safe integers: for one timeline row with 2 points
  redeemed and \<open>totalPoints\<close> \<open>2 ^ 53 - 1\<close> the adjustment \<open>2 ^ 53 + 1\<close> rounds to \<open>2 ^ 53\<close>,
  and the last \<open>Points\<close> is \<open>2 ^ 53 - 2\<close>.
\<close>

theorem last_point_misses_large_totalPoints:
  "chartData 0 (Some redeemed_two_timeline) None (Some 9007199254740991) \<noteq> []
   \<and> map Points (chartDataWithProgression 0 redeemed_two_timeline) = [- 2]
   \<and> adjustment (orZero (Some 9007199254740991))
        (chartDataWithProgression 0 redeemed_two_timeline) = 9007199254740992
   \<and> Points (last (chartData 0 (Some redeemed_two_timeline) None (Some 9007199254740991)))
       = 9007199254740990
   \<and> Points (last (chartData 0 (Some redeemed_two_timeline) None (Some 9007199254740991)))
       \<noteq> (case Some 9007199254740991 of None \<Rightarrow> 0 | Some t \<Rightarrow> t)"
  by code_simp

lemma sameExceptPoints_adjustPoints: "sameExceptPoints pts (adjustPoints c pts)"
  by (simp add: sameExceptPoints_def adjustPoints_map)

lemma adjustPoints_nth:
  "i < length pts \<Longrightarrow>
   Points (adjustPoints c pts ! i)
     = (if adjustment c pts = 0 then Points (pts ! i)
        else numAdd (Points (pts ! i)) (adjustment c pts))"
  by (simp add: adjustPoints_map)

lemma shiftedBy_adjustPoints:
  assumes "safeValues c pts" and "safeAfterAdjustment c pts"
  shows "shiftedBy (c - calculatedFinal pts) pts (adjustPoints c pts)"
proof -
  have adj: "adjustment c pts = c - calculatedFinal pts"
    by (rule adjustment_safe [OF assms(1)])
  have exact: "Points (adjustPoints c pts ! i) = Points (pts ! i) + (c - calculatedFinal pts)"
    if "i < length pts" for i
  proof -
    from that assms(2) have "safeInteger (Points (pts ! i) + (c - calculatedFinal pts))"
      by (simp add: safeAfterAdjustment_def list_all_length)
    then have "numAdd (Points (pts ! i)) (c - calculatedFinal pts)
               = Points (pts ! i) + (c - calculatedFinal pts)"
      by (rule numAdd_safe)
    with that show ?thesis
      by (simp add: adjustPoints_nth adj)
  qed
  have "sameExceptPoints pts (adjustPoints c pts)"
    by (rule sameExceptPoints_adjustPoints)
  with exact show ?thesis
    by (simp add: shiftedBy_def sameExceptPoints_def)
qed

text \<open>
  Claim C7, as amended. In both branches the output is the sequence before the
  adjustment with only the \<open>Points\<close> changed: \<open>Daily\<close>, \<open>Redeemed\<close>, \<open>Net\<close> and
  \<open>Redemptions\<close> (and the name, the raw date and the data source) of every point are the
  same before and after, for every input. When the adjustment is not zero it is added to
  the \<open>Points\<close> of every point, as doubles add. As long as the total, the numbers of the
  sequence before the adjustment, the adjustment and the adjusted \<open>Points\<close> are safe
  integers, the adjustment is \<open>totalPoints\<close> minus the last \<open>Points\<close> before it, every
  \<open>Points\<close> grows by exactly that much, and the differences of consecutive \<open>Points\<close> are
  the same before and after.
\<close>

theorem adjustment_shifts_only_Points:
  "sameExceptPoints (chartDataBeforeAdjustment tz timelineData activityFeed)
     (chartData tz timelineData activityFeed totalPoints)
   \<and> (\<forall>i < length (chartDataBeforeAdjustment tz timelineData activityFeed).
        Points (chartData tz timelineData activityFeed totalPoints ! i)
          = (if adjustment (orZero totalPoints)
                  (chartDataBeforeAdjustment tz timelineData activityFeed) = 0
             then Points (chartDataBeforeAdjustment tz timelineData activityFeed ! i)
             else numAdd (Points (chartDataBeforeAdjustment tz timelineData activityFeed ! i))
                    (adjustment (orZero totalPoints)
                       (chartDataBeforeAdjustment tz timelineData activityFeed))))
   \<and> (safeValues (orZero totalPoints) (chartDataBeforeAdjustment tz timelineData activityFeed)
       \<and> safeAfterAdjustment (orZero totalPoints)
            (chartDataBeforeAdjustment tz timelineData activityFeed) \<longrightarrow>
      adjustment (orZero totalPoints) (chartDataBeforeAdjustment tz timelineData activityFeed)
        = orZero totalPoints
          - calculatedFinal (chartDataBeforeAdjustment tz timelineData activityFeed)
      \<and> shiftedBy
          (orZero totalPoints
           - calculatedFinal (chartDataBeforeAdjustment tz timelineData activityFeed))
          (chartDataBeforeAdjustment tz timelineData activityFeed)
          (chartData tz timelineData activityFeed totalPoints))"
  unfolding chartData_adjusts
  by (simp add: sameExceptPoints_adjustPoints adjustPoints_nth adjustment_safe
      shiftedBy_adjustPoints)

theorem adjustment_shifts_only_Points_witness:
  "chartDataBeforeAdjustment 0 None (Some scenario1_feed) = chartDataFromFeed 0 scenario1_feed
   \<and> map Points (chartDataFromFeed 0 scenario1_feed) = [15, 12]
   \<and> safeValues (orZero (Some 20)) (chartDataBeforeAdjustment 0 None (Some scenario1_feed))
   \<and> safeAfterAdjustment (orZero (Some 20))
        (chartDataBeforeAdjustment 0 None (Some scenario1_feed))
   \<and> adjustment (orZero (Some 20)) (chartDataBeforeAdjustment 0 None (Some scenario1_feed)) = 8
   \<and> map Points (chartData 0 None (Some scenario1_feed) (Some 20)) = [23, 20]
   \<and> shiftedBy 8 (chartDataBeforeAdjustment 0 None (Some scenario1_feed))
        (chartData 0 None (Some scenario1_feed) (Some 20))
   \<and> sameExceptPoints (chartDataBeforeAdjustment 0 None (Some scenario1_feed))
        (chartData 0 None (Some scenario1_feed) (Some 20))
   \<and> Points (chartData 0 None (Some scenario1_feed) (Some 20) ! 0)
       = numAdd (Points (chartDataBeforeAdjustment 0 None (Some scenario1_feed) ! 0)) 8
   \<and> chartDataBeforeAdjustment 0 (Some scenario3_timeline) (Some [])
       = chartDataWithProgression 0 scenario3_timeline
   \<and> safeValues (orZero (Some 0)) (chartDataBeforeAdjustment 0 (Some scenario3_timeline) (Some []))
   \<and> safeAfterAdjustment (orZero (Some 0))
        (chartDataBeforeAdjustment 0 (Some scenario3_timeline) (Some []))
   \<and> shiftedBy 3 (chartDataBeforeAdjustment 0 (Some scenario3_timeline) (Some []))
        (chartData 0 (Some scenario3_timeline) (Some []) (Some 0))"
proof -
  have pre: "chartDataBeforeAdjustment 0 None (Some scenario1_feed)
        = chartDataFromFeed 0 scenario1_feed
      \<and> chartDataBeforeAdjustment 0 (Some scenario3_timeline) (Some [])
        = chartDataWithProgression 0 scenario3_timeline"
    by (simp add: chartDataBeforeAdjustment_def hasLength_def elems_def scenario1_feed_def
        scenario3_timeline_def)
  have feed: "safeValues (orZero (Some 20)) (chartDataBeforeAdjustment 0 None (Some scenario1_feed))
      \<and> safeAfterAdjustment (orZero (Some 20))
           (chartDataBeforeAdjustment 0 None (Some scenario1_feed))"
    by code_simp
  have timeline:
    "safeValues (orZero (Some 0)) (chartDataBeforeAdjustment 0 (Some scenario3_timeline) (Some []))
      \<and> safeAfterAdjustment (orZero (Some 0))
           (chartDataBeforeAdjustment 0 (Some scenario3_timeline) (Some []))"
    by code_simp
  have vals: "map Points (chartDataFromFeed 0 scenario1_feed) = [15, 12]
     \<and> map Points (chartData 0 None (Some scenario1_feed) (Some 20)) = [23, 20]
     \<and> orZero (Some 20) - calculatedFinal (chartDataBeforeAdjustment 0 None (Some scenario1_feed))
        = 8
     \<and> orZero (Some 0)
        - calculatedFinal (chartDataBeforeAdjustment 0 (Some scenario3_timeline) (Some [])) = 3
     \<and> 0 < length (chartDataBeforeAdjustment 0 None (Some scenario1_feed))"
    by code_simp
  note t = adjustment_shifts_only_Points
  from t [of 0 None "Some scenario1_feed" "Some 20", THEN conjunct2, THEN conjunct2,
      rule_format, OF feed] vals
  have 1: "adjustment (orZero (Some 20)) (chartDataBeforeAdjustment 0 None (Some scenario1_feed))
        = 8
      \<and> shiftedBy 8 (chartDataBeforeAdjustment 0 None (Some scenario1_feed))
          (chartData 0 None (Some scenario1_feed) (Some 20))"
    by simp
  from t [of 0 "Some scenario3_timeline" "Some []" "Some 0", THEN conjunct2, THEN conjunct2,
      rule_format, OF timeline] vals
  have 2: "shiftedBy 3 (chartDataBeforeAdjustment 0 (Some scenario3_timeline) (Some []))
          (chartData 0 (Some scenario3_timeline) (Some []) (Some 0))"
    by simp
  from t [of 0 None "Some scenario1_feed" "Some 20", THEN conjunct1]
  have 3: "sameExceptPoints (chartDataBeforeAdjustment 0 None (Some scenario1_feed))
        (chartData 0 None (Some scenario1_feed) (Some 20))" .
  from t [of 0 None "Some scenario1_feed" "Some 20", THEN conjunct2, THEN conjunct1,
      rule_format, of 0] vals 1
  have 4: "Points (chartData 0 None (Some scenario1_feed) (Some 20) ! 0)
       = numAdd (Points (chartDataBeforeAdjustment 0 None (Some scenario1_feed) ! 0)) 8"
    by simp
  from pre feed timeline vals 1 2 3 4 show ?thesis by simp
qed

text \<open>
  The claim as stated fails beyond the safe integers: with running totals 5 and 3 and
  \<open>totalPoints\<close> \<open>2 ^ 53 - 1\<close> the adjustment is \<open>2 ^ 53 - 4\<close>, the first sum \<open>2 ^ 53 + 1\<close>
  rounds to \<open>2 ^ 53\<close>, and the two \<open>Points\<close> of the output differ by 1 where those before
  the adjustment differ by 2.
\<close>

theorem adjustment_rounds_beyond_safe_range:
  "map Points (chartDataWithProgression 0 five_then_three_timeline) = [5, 3]
   \<and> adjustment (orZero (Some 9007199254740991))
        (chartDataWithProgression 0 five_then_three_timeline) = 9007199254740988
   \<and> map Points (chartData 0 (Some five_then_three_timeline) None (Some 9007199254740991))
       = [9007199254740992, 9007199254740991]
   \<and> Points (chartData 0 (Some five_then_three_timeline) None (Some 9007199254740991) ! 0)
       \<noteq> Points (chartDataWithProgression 0 five_then_three_timeline ! 0) + 9007199254740988
   \<and> Points (chartData 0 (Some five_then_three_timeline) None (Some 9007199254740991) ! 1)
       - Points (chartData 0 (Some five_then_three_timeline) None (Some 9007199254740991) ! 0)
       \<noteq> Points (chartDataWithProgression 0 five_then_three_timeline ! 1)
         - Points (chartDataWithProgression 0 five_then_three_timeline ! 0)
   \<and> \<not> shiftedBy 9007199254740988 (chartDataWithProgression 0 five_then_three_timeline)
         (chartData 0 (Some five_then_three_timeline) None (Some 9007199254740991))"
proof -
  have vals: "map Points (chartDataWithProgression 0 five_then_three_timeline) = [5, 3]
     \<and> adjustment (orZero (Some 9007199254740991))
          (chartDataWithProgression 0 five_then_three_timeline) = 9007199254740988
     \<and> map Points (chartData 0 (Some five_then_three_timeline) None (Some 9007199254740991))
         = [9007199254740992, 9007199254740991]"
    by code_simp
  then have pre: "length (map Points (chartDataWithProgression 0 five_then_three_timeline)) = 2"
    and p0: "map Points (chartDataWithProgression 0 five_then_three_timeline) ! 0 = 5"
    and p1: "map Points (chartDataWithProgression 0 five_then_three_timeline) ! 1 = 3"
    and o0: "map Points (chartData 0 (Some five_then_three_timeline) None
               (Some 9007199254740991)) ! 0 = 9007199254740992"
    and o1: "map Points (chartData 0 (Some five_then_three_timeline) None
               (Some 9007199254740991)) ! 1 = 9007199254740991"
    and olen: "length (map Points (chartData 0 (Some five_then_three_timeline) None
               (Some 9007199254740991))) = 2"
    by simp_all
  from pre olen have len: "length (chartDataWithProgression 0 five_then_three_timeline) = 2"
    "length (chartData 0 (Some five_then_three_timeline) None (Some 9007199254740991)) = 2"
    by simp_all
  from p0 p1 o0 o1 len
  have n: "Points (chartDataWithProgression 0 five_then_three_timeline ! 0) = 5"
    "Points (chartDataWithProgression 0 five_then_three_timeline ! 1) = 3"
    "Points (chartData 0 (Some five_then_three_timeline) None (Some 9007199254740991) ! 0)
       = 9007199254740992"
    "Points (chartData 0 (Some five_then_three_timeline) None (Some 9007199254740991) ! 1)
       = 9007199254740991"
    by simp_all
  have "\<not> shiftedBy 9007199254740988 (chartDataWithProgression 0 five_then_three_timeline)
         (chartData 0 (Some five_then_three_timeline) None (Some 9007199254740991))"
  proof
    assume "shiftedBy 9007199254740988 (chartDataWithProgression 0 five_then_three_timeline)
         (chartData 0 (Some five_then_three_timeline) None (Some 9007199254740991))"
    then have "Points (chartData 0 (Some five_then_three_timeline) None
                 (Some 9007199254740991) ! 0)
       = Points (chartDataWithProgression 0 five_then_three_timeline ! 0) + 9007199254740988"
      using len by (simp add: shiftedBy_def)
    with n show False by simp
  qed
  with vals n show ?thesis by simp
qed

section \<open>Properties of the running total\<close>










text \<open>
  Claim C9. The adjustment does not keep the displayed \<open>Points\<close> non-negative: for a feed
  with net changes +2 on one day and +10 on the next and \<open>totalPoints = 0\<close>, the running
  totals before the adjustment are 2 and 12, both clamped at zero from below, and the
  output has \<open>Points\<close> -10 and 0.
\<close>

theorem adjusted_points_can_be_negative:
  "map Net (chartDataFromFeed tz drift_feed) = [2, 10]
   \<and> map Points (chartDataFromFeed tz drift_feed) = [2, 12]
   \<and> map Points (chartData tz None (Some drift_feed) (Some 0)) = [- 10, 0]"
  by code_simp

section \<open>The derivation and its input arrays\<close>

lemma timelineAt_Some:
  "timelineAt h (Some a) = Some rows \<longleftrightarrow> a < length h \<and> h ! a = TimelineArray rows"
  by (auto simp: timelineAt_def split: jsArray.splits)

lemma chartDataH_timeline_branch:
  assumes "timelineAt h (Some a) = Some rows" and "rows \<noteq> []"
    and "\<not> hasLength (feedAt h activityFeed)"
  shows "chartDataH tz h (Some a) activityFeed totalPoints
         = (adjustPoints (orZero totalPoints) (timelineProgression tz 0 (sortedTimeline rows)),
            h @ [TimelineArray (sortedTimeline rows)])"
proof -
  from assms(1) have a: "a < length h" and ha: "h ! a = TimelineArray rows"
    by (simp_all add: timelineAt_Some)
  have sp: "spread h a = (length h, h @ [TimelineArray rows])"
    using assms(1) by (simp add: spread_def elems_def)
  have so: "sortInPlace (h @ [TimelineArray rows]) (length h)
            = h @ [TimelineArray (sortedTimeline rows)]"
    by (simp add: sortInPlace_def timelineAt_def sortedTimeline_def)
  have rd: "elems (timelineAt (h @ [TimelineArray (sortedTimeline rows)]) (Some (length h)))
            = sortedTimeline rows"
    by (simp add: timelineAt_def elems_def)
  show ?thesis
    using assms by (simp add: chartDataH_def hasLength_def sp so rd)
qed

lemma chartDataH_other_branches:
  assumes "hasLength (feedAt h activityFeed) \<or> \<not> hasLength (timelineAt h timelineData)"
  shows "chartDataH tz h timelineData activityFeed totalPoints
         = (chartData tz (timelineAt h timelineData) (feedAt h activityFeed) totalPoints, h)"
  using assms by (auto simp: chartDataH_def chartData_cases)

text \<open>On the store the derivation computes what \<open>chartData\<close> computes from the contents.\<close>

lemma chartDataH_result:
  "fst (chartDataH tz h timelineData activityFeed totalPoints)
     = chartData tz (timelineAt h timelineData) (feedAt h activityFeed) totalPoints"
proof (cases "hasLength (feedAt h activityFeed) \<or> \<not> hasLength (timelineAt h timelineData)")
  case True
  then show ?thesis by (simp add: chartDataH_other_branches)
next
  case False
  then obtain rows where rows: "timelineAt h timelineData = Some rows" "rows \<noteq> []"
    by (auto simp: hasLength_def split: option.splits)
  then obtain a where a: "timelineData = Some a"
    by (cases timelineData) (simp_all add: timelineAt_def)
  from chartDataH_timeline_branch [of h a rows activityFeed tz totalPoints] rows a False
  show ?thesis
    by (simp add: chartData_cases hasLength_def elems_def chartDataWithProgression_def)
qed

text \<open>
  Claim C10. The derivation leaves its inputs unchanged: every array that existed before
  is the same afterwards, element for element, in particular \<open>timelineData.timeline\<close>
  (the timeline branch sorts a fresh copy) and \<open>activityFeed.feed\<close> (only read).
\<close>

theorem chartData_leaves_inputs_unchanged:
  "take (length h) (snd (chartDataH tz h timelineData activityFeed totalPoints)) = h
   \<and> timelineAt (snd (chartDataH tz h timelineData activityFeed totalPoints)) timelineData
       = timelineAt h timelineData
   \<and> feedAt (snd (chartDataH tz h timelineData activityFeed totalPoints)) activityFeed
       = feedAt h activityFeed"
proof (cases "hasLength (feedAt h activityFeed) \<or> \<not> hasLength (timelineAt h timelineData)")
  case True
  then show ?thesis by (simp add: chartDataH_other_branches)
next
  case False
  then obtain rows where rows: "timelineAt h timelineData = Some rows" "rows \<noteq> []"
    by (auto simp: hasLength_def split: option.splits)
  then obtain a where a: "timelineData = Some a"
    by (cases timelineData) (simp_all add: timelineAt_def)
  from chartDataH_timeline_branch [of h a rows activityFeed tz totalPoints] rows a False
  have h': "snd (chartDataH tz h timelineData activityFeed totalPoints)
            = h @ [TimelineArray (sortedTimeline rows)]"
    by simp
  have "feedAt (h @ [TimelineArray (sortedTimeline rows)]) activityFeed = feedAt h activityFeed"
    by (auto simp: feedAt_def nth_append split: option.splits jsArray.splits)
  moreover have "timelineAt (h @ [TimelineArray (sortedTimeline rows)]) timelineData
                 = timelineAt h timelineData"
    using rows a by (simp add: timelineAt_def nth_append split: if_splits)
  ultimately show ?thesis using h' by simp
qed

text \<open>Sorting the input array itself, without the copy, would reorder it.\<close>

lemma sorting_the_input_itself_would_change_it:
  "timelineAt (sortInPlace [TimelineArray unsorted_timeline] 0) (Some 0)
     = Some (rev unsorted_timeline)"
  by code_simp

section \<open>Presentation and date labels\<close>

lemma ActivityGraph_Placeholder_iff:
  "ActivityGraph tz False timelineData activityFeed totalPoints = Placeholder
   \<longleftrightarrow> timelineData = None \<or> chartData tz timelineData activityFeed totalPoints = []"
  by (simp add: ActivityGraph_def Let_def)

text \<open>
  Claim C3 says that the placeholder panel is rendered exactly when the derived sequence is
  empty, also when a feed produced the sequence and \<open>timelineData\<close> is absent. The
  component tests \<open>!timelineData\<close> as well: for the feed of scenario 1 and no
  \<open>timelineData\<close> the derived sequence has two points and the placeholder is rendered;
  with an empty timeline in place of the absent one the same feed gives the line chart.
\<close>

theorem placeholder_shown_although_feed_gives_points:
  "map Points (chartData tz None (Some scenario1_feed) (Some 12)) = [15, 12]
   \<and> ActivityGraph tz False None (Some scenario1_feed) (Some 12) = Placeholder
   \<and> ActivityGraph tz False (Some []) (Some scenario1_feed) (Some 12)
       = LineChart (chartData tz (Some []) (Some scenario1_feed) (Some 12))"
  by code_simp

text \<open>
  \<open>formatDate\<close> of ActivityGraph.tsx on 8 September 2025: the label is the same in every
  time zone (offsets of up to a day either way).
\<close>

lemma parts_2025_09_08:
  "map parseInt (splitOn CHR ''-'' ''2025-09-08'') = [Some 2025, Some 9, Some 8]"
  by code_simp

lemma MakeDay_2025_09_08: "MakeDay 2025 8 8 = 20339"
  by code_simp

lemma civilFromDays_20339: "civilFromDays 20339 = (2025, 9, 8)"
  by code_simp

lemma label_Sep_8: "monthShort 9 @ '' '' @ showDay 8 = ''Sep 8''"
  by code_simp

lemma formatDate_2025_09_08:
  assumes "\<bar>tz\<bar> \<le> 86400000"
  shows "formatDate tz ''2025-09-08'' = ''Sep 8''"
proof -
  have clip: "TimeClip (20339 * msPerDay - tz) = Some (20339 * msPerDay - tz)"
    using assms by (simp add: TimeClip_def msPerDay_def)
  have date: "newDateLocal tz (Some 2025) (Some 8) (Some 8) = Some (20339 * msPerDay - tz)"
    by (simp add: newDateLocal_def MakeDay_2025_09_08 clip)
  have day: "(20339 * msPerDay - tz + tz) div msPerDay = 20339"
    by (simp add: msPerDay_def)
  have "formatDate tz ''2025-09-08''
          = toLocaleDateString tz (newDateLocal tz (Some 2025) (Some 8) (Some 8))"
    unfolding formatDate_def parts_2025_09_08 by (simp add: nthNumber_def)
  also have "\<dots> = monthShort 9 @ '' '' @ showDay 8"
    unfolding date toLocaleDateString_def by (simp only: option.case day civilFromDays_20339 prod.case)
  finally show ?thesis
    by (simp only: label_Sep_8)
qed

text \<open>
  Claim C8 says that the label carries the day of the month of the input string whatever
  the local time zone, so that \<open>2025-09-08\<close> gives \<open>Sep 8\<close> everywhere. The formatter
  of the second source file reads the string as midnight UTC and prints it in local
  time: five hours west of UTC it gives \<open>Sep 7\<close>, where the formatter of
  ActivityGraph.tsx gives \<open>Sep 8\<close>.
\<close>

theorem formatDate_part_000_shifts_the_day:
  "formatDate_part_000 (- 18000000) ''2025-09-08'' = ''Sep 7''
   \<and> formatDate (- 18000000) ''2025-09-08'' = ''Sep 8''"
  by code_simp

section \<open>Dates: different days have different time values\<close>

text \<open>
  A valid date string is determined by its time value: the day number grows with the
  year, and within a year with the month and the day.
\<close>

lemma div_succ:
  fixes a n :: int
  assumes "0 < n"
  shows "(a + 1) div n = a div n + (if (a + 1) mod n = 0 then 1 else 0)"
proof (cases "a mod n = n - 1")
  case True
  have eq: "n * (a div n) + a mod n = a" by (rule mult_div_mod_eq)
  have "n * (a div n) + n = n * (a div n + 1) + 0" by (simp add: algebra_simps)
  with eq True have s: "a + 1 = n * (a div n + 1) + 0" by linarith
  have "(a + 1) div n = a div n + 1"
    by (rule int_div_pos_eq [OF s]) (use assms in simp_all)
  moreover have "(a + 1) mod n = 0"
    by (rule int_mod_pos_eq [OF s]) (use assms in simp_all)
  ultimately show ?thesis by simp
next
  case False
  have r: "0 \<le> a mod n" "a mod n < n" using assms by simp_all
  with False have r1: "0 \<le> a mod n + 1" "a mod n + 1 < n" by simp_all
  have eq: "n * (a div n) + a mod n = a" by (rule mult_div_mod_eq)
  then have s: "a + 1 = n * (a div n) + (a mod n + 1)" by linarith
  have "(a + 1) div n = a div n"
    by (rule int_div_pos_eq [OF s r1])
  moreover have "(a + 1) mod n = a mod n + 1"
    by (rule int_mod_pos_eq [OF s r1])
  ultimately show ?thesis using r by simp
qed

lemma mod_shift: 
  fixes y :: int
  shows "(y - 1968) mod 4 = y mod 4" "(y - 1900) mod 100 = y mod 100" "(y - 1600) mod 400 = y mod 400"
proof -
  have "(y + 4 * (- 492)) mod 4 = y mod 4" by (rule mod_mult_self2)
  then show "(y - 1968) mod 4 = y mod 4" by simp
  have "(y + 100 * (- 19)) mod 100 = y mod 100" by (rule mod_mult_self2)
  then show "(y - 1900) mod 100 = y mod 100" by simp
  have "(y + 400 * (- 4)) mod 400 = y mod 400" by (rule mod_mult_self2)
  then show "(y - 1600) mod 400 = y mod 400" by simp
qed

lemma leap_arith:
  fixes y A B C A0 B0 C0 :: int
  assumes "A = A0 + (if p4 then 1 else 0)"
    and "B = B0 + (if p100 then 1 else 0)"
    and "C = C0 + (if p400 then 1 else 0)"
    and "p400 \<Longrightarrow> p100" and "p100 \<Longrightarrow> p4"
  shows "365 * (y + 1 - 1970) + A - B + C
         = 365 * (y - 1970) + A0 - B0 + C0 + 365 + (if p4 \<and> (\<not> p100 \<or> p400) then 1 else 0)"
  using assms by (cases p4; cases p100; cases p400; simp)

lemma DayFromYear_step:
  "DayFromYear (y + 1) = DayFromYear y + 365 + (if InLeapYear y then 1 else 0)"
proof -
  have s: "y + 1 - 1969 = y - 1969 + 1" "y + 1 - 1901 = y - 1901 + 1"
    "y + 1 - 1601 = y - 1601 + 1"
    by simp_all
  have t: "y - 1969 + 1 = y - 1968" "y - 1901 + 1 = y - 1900" "y - 1601 + 1 = y - 1600"
    by simp_all
  have a: "(y + 1 - 1969) div 4 = (y - 1969) div 4 + (if y mod 4 = 0 then 1 else 0)"
    unfolding s using div_succ [of 4 "y - 1969"] unfolding t mod_shift by simp
  have b: "(y + 1 - 1901) div 100 = (y - 1901) div 100 + (if y mod 100 = 0 then 1 else 0)"
    unfolding s using div_succ [of 100 "y - 1901"] unfolding t mod_shift by simp
  have c: "(y + 1 - 1601) div 400 = (y - 1601) div 400 + (if y mod 400 = 0 then 1 else 0)"
    unfolding s using div_succ [of 400 "y - 1601"] unfolding t mod_shift by simp
  have d: "y mod 400 = 0 \<Longrightarrow> y mod 100 = 0"
    using mod_mod_cancel [of 100 400 y] by simp
  have e: "y mod 100 = 0 \<Longrightarrow> y mod 4 = 0"
    using mod_mod_cancel [of 4 100 y] by simp
  show ?thesis
    unfolding DayFromYear_def InLeapYear_def by (rule leap_arith [OF a b c d e])
qed

lemma month_cases:
  fixes m :: int
  assumes "1 \<le> m" "m \<le> 12"
  shows "m = 1 \<or> m = 2 \<or> m = 3 \<or> m = 4 \<or> m = 5 \<or> m = 6 \<or> m = 7 \<or> m = 8 \<or> m = 9
         \<or> m = 10 \<or> m = 11 \<or> m = 12"
  using assms by arith

lemma leapDay_range: "leapDay y = 0 \<or> leapDay y = 1"
  by (simp add: leapDay_def)

lemma daysBeforeMonth_table:
  "daysBeforeMonth y 0 = 0" "daysBeforeMonth y 1 = 31" "daysBeforeMonth y 2 = 59 + leapDay y"
  "daysBeforeMonth y 3 = 90 + leapDay y" "daysBeforeMonth y 4 = 120 + leapDay y"
  "daysBeforeMonth y 5 = 151 + leapDay y" "daysBeforeMonth y 6 = 181 + leapDay y"
  "daysBeforeMonth y 7 = 212 + leapDay y" "daysBeforeMonth y 8 = 243 + leapDay y"
  "daysBeforeMonth y 9 = 273 + leapDay y" "daysBeforeMonth y 10 = 304 + leapDay y"
  "daysBeforeMonth y 11 = 334 + leapDay y"
  by (simp_all add: daysBeforeMonth_def leapDay_def)

lemma daysInMonth_table:
  "daysInMonth y 0 = 31" "daysInMonth y 1 = 28 + leapDay y" "daysInMonth y 2 = 31"
  "daysInMonth y 3 = 30" "daysInMonth y 4 = 31" "daysInMonth y 5 = 30" "daysInMonth y 6 = 31"
  "daysInMonth y 7 = 31" "daysInMonth y 8 = 30" "daysInMonth y 9 = 31" "daysInMonth y 10 = 30"
  "daysInMonth y 11 = 31"
  by (simp_all add: daysInMonth_def leapDay_def)

lemma dayOfYear_bounds:
  assumes "1 \<le> m" "m \<le> 12" "1 \<le> d" "d \<le> daysInMonth y (m - 1)"
  shows "0 \<le> daysBeforeMonth y (m - 1) + d - 1
         \<and> daysBeforeMonth y (m - 1) + d - 1 < 365 + leapDay y"
  using month_cases [OF assms(1,2)] assms(3,4) leapDay_range [of y]
  by (elim disjE; simp add: daysBeforeMonth_table daysInMonth_table)

lemma DayFromYear_mono: "y \<le> y' \<Longrightarrow> DayFromYear y \<le> DayFromYear y'"
proof (induction y' rule: int_ge_induct)
  case base
  show ?case by simp
next
  case (step k)
  then show ?case by (simp add: DayFromYear_step)
qed

lemma dayOfYear_inj:
  assumes "1 \<le> m" "m \<le> 12" "1 \<le> d" "d \<le> daysInMonth y (m - 1)"
    and "1 \<le> m'" "m' \<le> 12" "1 \<le> d'" "d' \<le> daysInMonth y (m' - 1)"
    and "daysBeforeMonth y (m - 1) + d = daysBeforeMonth y (m' - 1) + d'"
  shows "m = m' \<and> d = d'"
  using month_cases [OF assms(1,2)] month_cases [OF assms(5,6)] assms(3,4,7,8,9)
    leapDay_range [of y]
  by (elim disjE; simp add: daysBeforeMonth_table daysInMonth_table)

lemma MakeDay_month:
  "1 \<le> m \<Longrightarrow> m \<le> 12 \<Longrightarrow>
   MakeDay y (m - 1) d = DayFromYear y + daysBeforeMonth y (m - 1) + d - 1"
  by (simp add: MakeDay_def)

lemma MakeDay_less:
  assumes v: "1 \<le> m" "m \<le> 12" "1 \<le> d" "d \<le> daysInMonth y (m - 1)"
    and v': "1 \<le> m'" "m' \<le> 12" "1 \<le> d'" "d' \<le> daysInMonth y' (m' - 1)"
    and less: "y < y'"
  shows "MakeDay y (m - 1) d < MakeDay y' (m' - 1) d'"
proof -
  from less have "DayFromYear (y + 1) \<le> DayFromYear y'"
    by (intro DayFromYear_mono) simp
  then have "DayFromYear y + 365 + leapDay y \<le> DayFromYear y'"
    by (simp add: DayFromYear_step leapDay_def)
  with dayOfYear_bounds [OF v] dayOfYear_bounds [OF v'] show ?thesis
    by (simp add: MakeDay_month v v')
qed

lemma MakeDay_inj:
  assumes v: "1 \<le> m" "m \<le> 12" "1 \<le> d" "d \<le> daysInMonth y (m - 1)"
    and v': "1 \<le> m'" "m' \<le> 12" "1 \<le> d'" "d' \<le> daysInMonth y' (m' - 1)"
    and eq: "MakeDay y (m - 1) d = MakeDay y' (m' - 1) d'"
  shows "y = y' \<and> m = m' \<and> d = d'"
proof -
  have "\<not> y < y'" using MakeDay_less [OF v v'] eq by auto
  moreover have "\<not> y' < y" using MakeDay_less [OF v' v] eq by auto
  ultimately have y: "y = y'" by simp
  with eq have "daysBeforeMonth y (m - 1) + d = daysBeforeMonth y (m' - 1) + d'"
    by (simp add: MakeDay_month v v')
  with dayOfYear_inj [OF v v' [folded y]] y show ?thesis by simp
qed

lemma parseIsoDate_SomeD:
  assumes "parseIsoDate s = Some (y, m, d)"
  shows "length s = 10" "s ! 4 = CHR ''-''" "s ! 7 = CHR ''-''"
    "list_all isDigit (take 4 s)" "list_all isDigit (take 2 (drop 5 s))"
    "list_all isDigit (drop 8 s)"
    "y = digitsValue 0 (take 4 s)" "m = digitsValue 0 (take 2 (drop 5 s))"
    "d = digitsValue 0 (drop 8 s)"
    "1 \<le> m" "m \<le> 12" "1 \<le> d" "d \<le> daysInMonth y (m - 1)"
  using assms by (auto simp: parseIsoDate_def Let_def split: if_splits)

lemma TimeClip_SomeD: "TimeClip t = Some v \<Longrightarrow> v = t"
  by (simp add: TimeClip_def split: if_splits)

lemma getTime_SomeD:
  assumes "getTime s = Some t"
  obtains y m d where "parseIsoDate s = Some (y, m, d)" "t = MakeDay y (m - 1) d * msPerDay"
  using assms by (auto simp: getTime_def split: option.splits dest: TimeClip_SomeD)

lemma digitVal_inj: "digitVal a = Some d \<Longrightarrow> digitVal b = Some d \<Longrightarrow> a = b"
  by (auto simp: digitVal_def split: if_splits)

lemma digitVal_range: "digitVal a = Some d \<Longrightarrow> 0 \<le> d \<and> d \<le> 9"
  by (auto simp: digitVal_def split: if_splits)
lemma digitsValue_inj:
  "list_all isDigit xs \<Longrightarrow> list_all isDigit ys \<Longrightarrow> length xs = length ys \<Longrightarrow>
   digitsValue a xs = digitsValue b ys \<Longrightarrow> a = b \<and> xs = ys"
proof (induction xs arbitrary: a b ys)
  case Nil
  then show ?case by simp
next
  case (Cons c cs)
  then obtain e es where ys: "ys = e # es" by (cases ys) auto
  from Cons.prems ys obtain dc de where dc: "digitVal c = Some dc" and de: "digitVal e = Some de"
    by (auto simp: isDigit_def)
  from Cons.prems ys dc de have "digitsValue (10 * a + dc) cs = digitsValue (10 * b + de) es"
    by simp
  with Cons.IH [of es "10 * a + dc" "10 * b + de"] Cons.prems ys
  have eq: "10 * a + dc = 10 * b + de" and tl: "cs = es" by auto
  from digitVal_range [OF dc] digitVal_range [OF de] eq have ab: "a = b" by linarith
  with eq have "dc = de" by simp
  with dc de digitVal_inj have "c = e" by blast
  with ab tl ys show ?case by simp
qed

lemma iso_string_parts:
  assumes "length s = 10"
  shows "s = take 4 s @ s ! 4 # take 2 (drop 5 s) @ s ! 7 # drop 8 s"
proof -
  have "s = take 4 s @ s ! 4 # drop 5 s"
    using assms id_take_nth_drop [of 4 s] by simp
  moreover have "drop 5 s = take 2 (drop 5 s) @ s ! 7 # drop 8 s"
    using assms id_take_nth_drop [of 2 "drop 5 s"] by simp
  ultimately show ?thesis by simp
qed

lemma parseIsoDate_inj:
  assumes "parseIsoDate s = Some (y, m, d)" and "parseIsoDate s' = Some (y, m, d)"
  shows "s = s'"
proof -
  note p = parseIsoDate_SomeD [OF assms(1)] and p' = parseIsoDate_SomeD [OF assms(2)]
  have "take 4 s = take 4 s'"
  proof (rule conjunct2 [OF digitsValue_inj [of "take 4 s" "take 4 s'" 0 0, OF p(4) p'(4)]])
    show "length (take 4 s) = length (take 4 s')" using p(1) p'(1) by simp
    show "digitsValue 0 (take 4 s) = digitsValue 0 (take 4 s')" using p(7) p'(7) by simp
  qed
  moreover have "take 2 (drop 5 s) = take 2 (drop 5 s')"
  proof (rule conjunct2 [OF digitsValue_inj [of "take 2 (drop 5 s)" "take 2 (drop 5 s')" 0 0,
          OF p(5) p'(5)]])
    show "length (take 2 (drop 5 s)) = length (take 2 (drop 5 s'))" using p(1) p'(1) by simp
    show "digitsValue 0 (take 2 (drop 5 s)) = digitsValue 0 (take 2 (drop 5 s'))"
      using p(8) p'(8) by simp
  qed
  moreover have "drop 8 s = drop 8 s'"
  proof (rule conjunct2 [OF digitsValue_inj [of "drop 8 s" "drop 8 s'" 0 0, OF p(6) p'(6)]])
    show "length (drop 8 s) = length (drop 8 s')" using p(1) p'(1) by simp
    show "digitsValue 0 (drop 8 s) = digitsValue 0 (drop 8 s')" using p(9) p'(9) by simp
  qed
  ultimately show ?thesis
    using iso_string_parts [OF p(1)] iso_string_parts [OF p'(1)] p(2,3) p'(2,3) by metis
qed

lemma getTime_inj:
  assumes "getTime s = Some t" and "getTime s' = Some t"
  shows "s = s'"
proof -
  from assms(1) obtain y m d where
    p: "parseIsoDate s = Some (y, m, d)" and t: "t = MakeDay y (m - 1) d * msPerDay"
    by (rule getTime_SomeD)
  from assms(2) obtain y' m' d' where
    p': "parseIsoDate s' = Some (y', m', d')" and t': "t = MakeDay y' (m' - 1) d' * msPerDay"
    by (rule getTime_SomeD)
  from t t' have "MakeDay y (m - 1) d = MakeDay y' (m' - 1) d'"
    by (simp add: msPerDay_def)
  with MakeDay_inj [OF parseIsoDate_SomeD(10-13) [OF p] parseIsoDate_SomeD(10-13) [OF p']]
  have "y = y' \<and> m = m' \<and> d = d'" by simp
  with p p' show ?thesis by (auto intro: parseIsoDate_inj)
qed

section \<open>The order of the output\<close>

lemma set_insertSorted: "set (insertSorted cmp x ys) = insert x (set ys)"
  by (induction ys) auto

lemma set_sortArray: "set (sortArray cmp xs) = set xs"
  by (induction xs) (simp_all add: sortArray_def set_insertSorted)

lemma distinct_map_insertSorted:
  "distinct (map f (insertSorted cmp x ys)) \<longleftrightarrow> f x \<notin> f ` set ys \<and> distinct (map f ys)"
  by (induction ys) (auto simp: set_insertSorted)

lemma distinct_map_sortArray: "distinct (map f (sortArray cmp xs)) = distinct (map f xs)"
  by (induction xs) (simp_all add: sortArray_def distinct_map_insertSorted set_sortArray [unfolded sortArray_def])

lemma sorted_map_insertSorted:
  fixes k :: "'a \<Rightarrow> int"
  assumes "sorted (map k ys)" and "\<forall>y \<in> set ys. cmp x y \<le> 0 \<longleftrightarrow> k x \<le> k y"
  shows "sorted (map k (insertSorted cmp x ys))"
  using assms by (induction ys) (auto simp: set_insertSorted)

lemma sorted_map_sortArray:
  fixes k :: "'a \<Rightarrow> int"
  assumes "\<forall>x \<in> set xs. \<forall>y \<in> set xs. cmp x y \<le> 0 \<longleftrightarrow> k x \<le> k y"
  shows "sorted (map k (sortArray cmp xs))"
  using assms
proof (induction xs)
  case Nil
  then show ?case by (simp add: sortArray_def)
next
  case (Cons x xs)
  then have "sorted (map k (sortArray cmp xs))" by simp
  moreover have "\<forall>y \<in> set (sortArray cmp xs). cmp x y \<le> 0 \<longleftrightarrow> k x \<le> k y"
    using Cons.prems by (simp add: set_sortArray)
  ultimately have "sorted (map k (insertSorted cmp x (sortArray cmp xs)))"
    by (rule sorted_map_insertSorted)
  then show ?case by (simp add: sortArray_def)
qed

lemma dateCmp_valid:
  "validDate a \<Longrightarrow> validDate b \<Longrightarrow>
   dateCmp a b \<le> 0 \<longleftrightarrow> the (getTime a) \<le> the (getTime b)"
  by (auto simp: validDate_def dateCmp_def)

lemma dateNotAfter_valid:
  "validDate a \<Longrightarrow> validDate b \<Longrightarrow> dateNotAfter a b \<longleftrightarrow> the (getTime a) \<le> the (getTime b)"
  by (auto simp: validDate_def dateNotAfter_def)

lemma dateBefore_valid:
  "validDate a \<Longrightarrow> validDate b \<Longrightarrow> dateBefore a b \<longleftrightarrow> the (getTime a) < the (getTime b)"
  by (auto simp: validDate_def dateBefore_def)

lemma getTime_inj_on: "inj_on (\<lambda>s. the (getTime s)) {s. validDate s}"
  by (rule inj_onI) (auto simp: validDate_def intro: getTime_inj)

text \<open>Sorting by \<open>dateCmp\<close> on a field \<open>f\<close> holding valid dates.\<close>

lemma sortArray_dates_ascending:
  assumes "\<forall>x \<in> set xs. validDate (f x)"
  shows "sorted_wrt (\<lambda>a b. dateNotAfter a b) (map f (sortArray (\<lambda>a b. dateCmp (f a) (f b)) xs))"
proof -
  let ?out = "sortArray (\<lambda>a b. dateCmp (f a) (f b)) xs"
  have "sorted (map (\<lambda>x. the (getTime (f x))) ?out)"
    by (rule sorted_map_sortArray) (use assms in \<open>simp add: dateCmp_valid\<close>)
  then have "sorted_wrt (\<lambda>a b. the (getTime (f a)) \<le> the (getTime (f b))) ?out"
    by (simp add: sorted_map)
  then have "sorted_wrt (\<lambda>a b. dateNotAfter (f a) (f b)) ?out"
    by (rule sorted_wrt_mono_rel [rotated])
      (use assms in \<open>simp add: set_sortArray dateNotAfter_valid\<close>)
  then show ?thesis by (simp add: sorted_wrt_map)
qed

lemma sortArray_dates_strictly_ascending:
  assumes "\<forall>x \<in> set xs. validDate (f x)" and "distinct (map f xs)"
  shows "sorted_wrt (\<lambda>a b. dateBefore a b) (map f (sortArray (\<lambda>a b. dateCmp (f a) (f b)) xs))"
proof -
  let ?out = "sortArray (\<lambda>a b. dateCmp (f a) (f b)) xs"
  let ?t = "\<lambda>s. the (getTime s)"
  have "sorted (map (\<lambda>x. ?t (f x)) ?out)"
    by (rule sorted_map_sortArray) (use assms in \<open>simp add: dateCmp_valid\<close>)
  then have s: "sorted (map ?t (map f ?out))" by (simp add: comp_def)
  have "distinct (map f ?out)" using assms(2) by (simp add: distinct_map_sortArray)
  moreover have "inj_on ?t (set (map f ?out))"
    by (rule inj_on_subset [OF getTime_inj_on]) (use assms(1) in \<open>auto simp: set_sortArray\<close>)
  ultimately have d: "distinct (map ?t (map f ?out))" by (simp only: distinct_map)
  from s d have "sorted_wrt (<) (map ?t (map f ?out))"
    by (simp add: strict_sorted_iff)
  then have "sorted_wrt (\<lambda>a b. ?t a < ?t b) (map f ?out)"
    by (simp add: sorted_wrt_map)
  then show ?thesis
    by (rule sorted_wrt_mono_rel [rotated])
      (use assms(1) in \<open>auto simp: set_sortArray dateBefore_valid\<close>)
qed
lemma map_fst_updateBucket: "map fst (updateBucket k f dd) = map fst dd"
  by (induction dd) (auto simp: updateBucket_def)

lemma addItem_keys:
  "map fst (addItem dd item) =
     (if dateKeyOf item \<in> set objectPrototypeKeys \<or> dateKeyOf item \<in> set (map fst dd)
      then map fst dd else map fst dd @ [dateKeyOf item])"
  by (auto simp: addItem_def Let_def map_fst_updateBucket map_of_eq_None_iff)

lemma datesMatchKeys_updateBucket:
  assumes "datesMatchKeys dd" and "\<And>b. DailyBucket.date (f b) = DailyBucket.date b"
  shows "datesMatchKeys (updateBucket k f dd)"
  using assms by (induction dd) (auto simp: datesMatchKeys_def updateBucket_def)

lemma datesMatchKeys_addItem: "datesMatchKeys dd \<Longrightarrow> datesMatchKeys (addItem dd item)"
proof -
  assume dd: "datesMatchKeys dd"
  then have ext: "datesMatchKeys (dd @ [(dateKeyOf item, emptyBucket (dateKeyOf item))])"
    by (simp add: datesMatchKeys_def emptyBucket_def)
  show ?thesis
    unfolding addItem_def Let_def
    by (auto intro!: datesMatchKeys_updateBucket simp: dd ext)
qed

lemma foldl_addItem_keys:
  "set (map fst (foldl addItem dd feed))
     = set (map fst dd) \<union> {k \<in> dateKeyOf ` set feed. k \<notin> set objectPrototypeKeys}"
proof (induction feed rule: rev_induct)
  case Nil
  show ?case by simp
next
  case (snoc item feed)
  show ?case
    unfolding foldl_append foldl.simps addItem_keys using snoc.IH by auto
qed

lemma foldl_addItem_distinct:
  "distinct (map fst dd) \<Longrightarrow> distinct (map fst (foldl addItem dd feed))"
proof (induction feed rule: rev_induct)
  case Nil
  then show ?case by simp
next
  case (snoc item feed)
  then show ?case
    unfolding foldl_append foldl.simps addItem_keys by auto
qed

lemma foldl_addItem_datesMatchKeys:
  "datesMatchKeys dd \<Longrightarrow> datesMatchKeys (foldl addItem dd feed)"
  by (induction feed rule: rev_induct) (simp_all add: datesMatchKeys_addItem)

lemma groupByDay_keys:
  "set (map fst (groupByDay feed)) = {k \<in> dateKeyOf ` set feed. k \<notin> set objectPrototypeKeys}"
  using foldl_addItem_keys [of "[]" feed] by (simp add: groupByDay_def)

lemma groupByDay_distinct: "distinct (map fst (groupByDay feed))"
  using foldl_addItem_distinct [of "[]" feed] by (simp add: groupByDay_def)

lemma groupByDay_datesMatchKeys: "datesMatchKeys (groupByDay feed)"
  using foldl_addItem_datesMatchKeys [of "[]" feed] by (simp add: groupByDay_def datesMatchKeys_def)

lemma objectValues_dates:
  assumes "datesMatchKeys dd"
  shows "map DailyBucket.date (objectValues dd)
         = map fst (sort_key (\<lambda>kv. digitsValue 0 (fst kv)) (filter (\<lambda>kv. isArrayIndex (fst kv)) dd)
                    @ filter (\<lambda>kv. \<not> isArrayIndex (fst kv)) dd)"
proof -
  have "\<forall>kb \<in> set dd. DailyBucket.date (snd kb) = fst kb"
    using assms by (simp add: datesMatchKeys_def list_all_iff)
  then show ?thesis
    unfolding objectValues_def map_map by (intro map_cong refl) auto
qed

lemma objectValues_dates_set:
  "datesMatchKeys dd \<Longrightarrow> set (map DailyBucket.date (objectValues dd)) = set (map fst dd)"
  by (auto simp: objectValues_dates)

lemma objectValues_dates_distinct:
  assumes "datesMatchKeys dd" and "distinct (map fst dd)"
  shows "distinct (map DailyBucket.date (objectValues dd))"
proof -
  from assms(2) have d: "distinct dd" and i: "inj_on fst (set dd)"
    by (simp_all add: distinct_map)
  have "distinct (sort_key (\<lambda>kv. digitsValue 0 (fst kv)) (filter (\<lambda>kv. isArrayIndex (fst kv)) dd)
                    @ filter (\<lambda>kv. \<not> isArrayIndex (fst kv)) dd)"
    using d by auto
  moreover have "inj_on fst (set (sort_key (\<lambda>kv. digitsValue 0 (fst kv))
                       (filter (\<lambda>kv. isArrayIndex (fst kv)) dd)
                    @ filter (\<lambda>kv. \<not> isArrayIndex (fst kv)) dd))"
    by (rule inj_on_subset [OF i]) auto
  ultimately show ?thesis
    unfolding objectValues_dates [OF assms(1)] distinct_map by simp
qed

lemma feedProgression_rawDate:
  "map rawDate (feedProgression tz rt days) = map DailyBucket.date days"
  by (induction days arbitrary: rt) (simp_all add: Let_def)

lemma timelineProgression_rawDate:
  "map rawDate (timelineProgression tz rt items) = map TimelineRow.date items"
  by (induction items arbitrary: rt) (simp_all add: Let_def)

lemma adjustPoints_rawDate: "map rawDate (adjustPoints c pts) = map rawDate pts"
  by (simp add: adjustPoints_map)

lemma chartDataFromFeed_rawDate:
  "map rawDate (chartDataFromFeed tz feed)
     = map DailyBucket.date (sortArray (\<lambda>a b. dateCmp (DailyBucket.date a) (DailyBucket.date b))
         (objectValues (groupByDay feed)))"
  by (simp add: chartDataFromFeed_def feedProgression_rawDate sortedDays_def)

lemma chartDataWithProgression_rawDate:
  "map rawDate (chartDataWithProgression tz timeline)
     = map TimelineRow.date
         (sortArray (\<lambda>a b. dateCmp (TimelineRow.date a) (TimelineRow.date b)) timeline)"
  by (simp add: chartDataWithProgression_def timelineProgression_rawDate sortedTimeline_def)

lemma feed_output_strictly_ascending:
  assumes "list_all (\<lambda>item. validDate (dateKeyOf item)) feed"
  shows "strictlyAscendingByDate (adjustPoints c (chartDataFromFeed tz feed))"
proof -
  let ?dd = "groupByDay feed"
  let ?bs = "objectValues ?dd"
  have m: "datesMatchKeys ?dd" by (rule groupByDay_datesMatchKeys)
  have "set (map DailyBucket.date ?bs) \<subseteq> dateKeyOf ` set feed"
    unfolding objectValues_dates_set [OF m] groupByDay_keys by auto
  with assms have valid: "\<forall>b \<in> set ?bs. validDate (DailyBucket.date b)"
    by (auto simp: list_all_iff)
  have dist: "distinct (map DailyBucket.date ?bs)"
    by (rule objectValues_dates_distinct [OF m groupByDay_distinct])
  have "sorted_wrt (\<lambda>a b. dateBefore a b)
          (map rawDate (adjustPoints c (chartDataFromFeed tz feed)))"
    unfolding adjustPoints_rawDate chartDataFromFeed_rawDate
    by (rule sortArray_dates_strictly_ascending [OF valid dist])
  then show ?thesis
    by (simp add: strictlyAscendingByDate_def sorted_wrt_map)
qed

lemma timeline_output_ascending:
  assumes "list_all (\<lambda>row. validDate (TimelineRow.date row)) timeline"
  shows "ascendingByDate (adjustPoints c (chartDataWithProgression tz timeline))"
    and "distinct (map TimelineRow.date timeline) \<Longrightarrow>
         strictlyAscendingByDate (adjustPoints c (chartDataWithProgression tz timeline))"
proof -
  from assms have valid: "\<forall>row \<in> set timeline. validDate (TimelineRow.date row)"
    by (simp add: list_all_iff)
  have "sorted_wrt (\<lambda>a b. dateNotAfter a b)
          (map rawDate (adjustPoints c (chartDataWithProgression tz timeline)))"
    unfolding adjustPoints_rawDate chartDataWithProgression_rawDate
    by (rule sortArray_dates_ascending [OF valid])
  then show "ascendingByDate (adjustPoints c (chartDataWithProgression tz timeline))"
    by (simp add: ascendingByDate_def sorted_wrt_map)
  assume dist: "distinct (map TimelineRow.date timeline)"
  have "sorted_wrt (\<lambda>a b. dateBefore a b)
          (map rawDate (adjustPoints c (chartDataWithProgression tz timeline)))"
    unfolding adjustPoints_rawDate chartDataWithProgression_rawDate
    by (rule sortArray_dates_strictly_ascending [OF valid dist])
  then show "strictlyAscendingByDate (adjustPoints c (chartDataWithProgression tz timeline))"
    by (simp add: strictlyAscendingByDate_def sorted_wrt_map)
qed

text \<open>
  Claim C6, as amended. For every non-empty input whose dates are valid \<open>YYYY-MM-DD\<close>
  dates, in whatever order they are supplied, the output is sorted ascending by raw date:
  strictly in the activity-feed branch, which has one bucket per date; in the timeline
  branch rows with equal dates are all kept, so the order is ascending with equal
  neighbours allowed, and strict when the rows have pairwise different dates.
\<close>

theorem output_ascending_by_date:
  "(feed \<noteq> [] \<and> list_all (\<lambda>item. validDate (dateKeyOf item)) feed \<longrightarrow>
      strictlyAscendingByDate (chartData tz timelineData (Some feed) totalPoints))
   \<and> (\<not> hasLength activityFeed \<and> timeline \<noteq> []
       \<and> list_all (\<lambda>row. validDate (TimelineRow.date row)) timeline \<longrightarrow>
      ascendingByDate (chartData tz (Some timeline) activityFeed totalPoints)
      \<and> (distinct (map TimelineRow.date timeline) \<longrightarrow>
           strictlyAscendingByDate (chartData tz (Some timeline) activityFeed totalPoints)))"
  by (simp add: chartData_cases hasLength_def elems_def feed_output_strictly_ascending
      timeline_output_ascending)

theorem output_ascending_by_date_witness:
  "unordered_feed \<noteq> []
   \<and> list_all (\<lambda>item. validDate (dateKeyOf item)) unordered_feed
   \<and> map rawDate (chartData 0 None (Some unordered_feed) (Some 9))
       = [''2025-09-07'', ''2025-09-08'']
   \<and> strictlyAscendingByDate (chartData 0 None (Some unordered_feed) (Some 9))
   \<and> \<not> hasLength (None :: ActivityFeedItem list option)
   \<and> unsorted_timeline \<noteq> []
   \<and> list_all (\<lambda>row. validDate (TimelineRow.date row)) unsorted_timeline
   \<and> distinct (map TimelineRow.date unsorted_timeline)
   \<and> map rawDate (chartData 0 (Some unsorted_timeline) None (Some 9))
       = [''2025-09-07'', ''2025-09-08'']
   \<and> ascendingByDate (chartData 0 (Some unsorted_timeline) None (Some 9))
   \<and> strictlyAscendingByDate (chartData 0 (Some unsorted_timeline) None (Some 9))"
proof -
  have feed: "unordered_feed \<noteq> []
      \<and> list_all (\<lambda>item. validDate (dateKeyOf item)) unordered_feed"
    by code_simp
  have timeline: "\<not> hasLength (None :: ActivityFeedItem list option)
      \<and> unsorted_timeline \<noteq> []
      \<and> list_all (\<lambda>row. validDate (TimelineRow.date row)) unsorted_timeline"
    by code_simp
  have dist: "distinct (map TimelineRow.date unsorted_timeline)"
    by code_simp
  have vals: "map rawDate (chartData 0 None (Some unordered_feed) (Some 9))
         = [''2025-09-07'', ''2025-09-08'']
      \<and> map rawDate (chartData 0 (Some unsorted_timeline) None (Some 9))
         = [''2025-09-07'', ''2025-09-08'']"
    by code_simp
  show ?thesis
    using feed timeline dist vals
      output_ascending_by_date [of unordered_feed 0 None "Some 9" None unsorted_timeline]
    by simp
qed

text \<open>
  The claim as stated fails on a timeline with two rows of the same date: both rows are
  emitted, with the same raw date.
\<close>

theorem duplicate_dates_not_strictly_ascending:
  "map rawDate (chartData 0 (Some duplicate_timeline) None (Some 9))
     = [''2025-09-08'', ''2025-09-08'']
   \<and> \<not> strictlyAscendingByDate (chartData 0 (Some duplicate_timeline) None (Some 9))"
  by code_simp

section \<open>Feed items that are not counted\<close>

lemma map_of_updateBucket:
  "map_of (updateBucket k f dd) k' = (if k' = k then map_option f (map_of dd k) else map_of dd k')"
  by (induction dd) (auto simp: updateBucket_def)

lemma addItem_not_counted:
  assumes "\<not> countsAsEarning item" and "\<not> countsAsRedemption item"
  shows "addItem dd item =
           (if dateKeyOf item \<in> set objectPrototypeKeys \<or> dateKeyOf item \<in> set (map fst dd)
            then dd else dd @ [(dateKeyOf item, emptyBucket (dateKeyOf item))])"
  using assms
  by (auto simp: addItem_def Let_def countsAsEarning_def countsAsRedemption_def
      map_of_eq_None_iff)

lemma map_of_addItem:
  "map_of (addItem dd item) k =
     (if dateKeyOf item = k \<and> k \<notin> set objectPrototypeKeys
      then (let b = (case map_of dd k of None \<Rightarrow> emptyBucket k | Some b \<Rightarrow> b)
            in if countsAsEarning item
               then Some (b\<lparr>points := points b + points_change item,
                            activities := activities b + 1\<rparr>)
               else if countsAsRedemption item
               then Some (b\<lparr>redeemed := redeemed b + \<bar>points_change item\<bar>,
                            redemptions := redemptions b + 1\<rparr>)
               else Some b)
      else map_of dd k)"
  by (auto simp: addItem_def Let_def countsAsEarning_def countsAsRedemption_def
      map_of_updateBucket map_add_def split: option.splits)

lemma bucketOf_no_item: "k \<notin> dateKeyOf ` set feed \<Longrightarrow> bucketOf k feed = emptyBucket k"
proof -
  assume "k \<notin> dateKeyOf ` set feed"
  then have "filter (\<lambda>i. dateKeyOf i = k \<and> P i) feed = []" for P
    by (auto simp: filter_empty_conv)
  then show ?thesis by (simp add: bucketOf_def emptyBucket_def)
qed

lemma bucketOf_snoc_other:
  "dateKeyOf item \<noteq> k \<Longrightarrow> bucketOf k (feed @ [item]) = bucketOf k feed"
  by (simp add: bucketOf_def)

lemma bucketOf_snoc_same:
  "bucketOf (dateKeyOf item) (feed @ [item]) =
     (let b = bucketOf (dateKeyOf item) feed
      in if countsAsEarning item
         then b\<lparr>points := points b + points_change item, activities := activities b + 1\<rparr>
         else if countsAsRedemption item
         then b\<lparr>redeemed := redeemed b + \<bar>points_change item\<bar>,
                redemptions := redemptions b + 1\<rparr>
         else b)"
  by (auto simp: bucketOf_def Let_def countsAsEarning_def countsAsRedemption_def)

lemma groupByDay_snoc: "groupByDay (feed @ [item]) = addItem (groupByDay feed) item"
  by (simp add: groupByDay_def)

lemma map_of_groupByDay:
  "map_of (groupByDay feed) k = (if hasBucket k feed then Some (bucketOf k feed) else None)"
proof (induction feed rule: rev_induct)
  case Nil
  show ?case by (simp add: groupByDay_def hasBucket_def)
next
  case (snoc item feed)
  show ?case
  proof (cases "dateKeyOf item = k \<and> k \<notin> set objectPrototypeKeys")
    case True
    then have has: "hasBucket k (feed @ [item])" by (auto simp: hasBucket_def)
    have b: "(case map_of (groupByDay feed) k of None \<Rightarrow> emptyBucket k | Some b \<Rightarrow> b)
             = bucketOf k feed"
      using True by (auto simp: snoc.IH hasBucket_def bucketOf_no_item)
    from True have k: "k = dateKeyOf item" by simp
    show ?thesis
      unfolding groupByDay_snoc map_of_addItem b
      using True has bucketOf_snoc_same [of item feed]
      by (simp add: k Let_def)
  next
    case False
    then have "hasBucket k (feed @ [item]) = hasBucket k feed"
      by (auto simp: hasBucket_def)
    moreover have "hasBucket k feed \<Longrightarrow> bucketOf k (feed @ [item]) = bucketOf k feed"
      using False by (auto simp: hasBucket_def bucketOf_snoc_other)
    ultimately show ?thesis
      unfolding groupByDay_snoc map_of_addItem using False snoc.IH by auto
  qed
qed

lemma bucketOf_without_uncounted:
  assumes "\<not> countsAsEarning item" and "\<not> countsAsRedemption item"
  shows "bucketOf k (xs @ item # ys) = bucketOf k (xs @ ys)"
  using assms by (simp add: bucketOf_def)

lemma groupByDay_without_uncounted:
  assumes "\<not> countsAsEarning item" and "\<not> countsAsRedemption item"
    and "dateKeyOf item \<in> dateKeyOf ` set xs"
  shows "groupByDay (xs @ item # ys) = groupByDay (xs @ ys)"
proof -
  have "addItem (groupByDay xs) item = groupByDay xs"
    using assms(3) groupByDay_keys [of xs]
    by (auto simp: addItem_not_counted [OF assms(1,2)])
  then show ?thesis by (simp add: groupByDay_def)
qed

text \<open>The sorted buckets depend on the contents of the dictionary only, not on its order.\<close>

lemma set_objectValues: "set (objectValues dd) = snd ` set dd"
  by (auto simp: objectValues_def)

lemma sortedDays_times:
  assumes "list_all (\<lambda>item. validDate (dateKeyOf item)) feed"
  shows "sorted (map (\<lambda>b. the (getTime (DailyBucket.date b))) (sortedDays feed))"
    and "distinct (map (\<lambda>b. the (getTime (DailyBucket.date b))) (sortedDays feed))"
proof -
  let ?bs = "objectValues (groupByDay feed)"
  let ?t = "\<lambda>s. the (getTime s)"
  have m: "datesMatchKeys (groupByDay feed)" by (rule groupByDay_datesMatchKeys)
  have "set (map DailyBucket.date ?bs) \<subseteq> dateKeyOf ` set feed"
    unfolding objectValues_dates_set [OF m] groupByDay_keys by auto
  with assms have valid: "\<forall>b \<in> set ?bs. validDate (DailyBucket.date b)"
    by (auto simp: list_all_iff)
  show "sorted (map (\<lambda>b. ?t (DailyBucket.date b)) (sortedDays feed))"
    unfolding sortedDays_def
    by (rule sorted_map_sortArray) (use valid in \<open>simp add: dateCmp_valid\<close>)
  have "distinct (map DailyBucket.date (sortedDays feed))"
    unfolding sortedDays_def distinct_map_sortArray
    by (rule objectValues_dates_distinct [OF m groupByDay_distinct])
  moreover have "inj_on ?t (set (map DailyBucket.date (sortedDays feed)))"
    by (rule inj_on_subset [OF getTime_inj_on])
      (use valid in \<open>auto simp: sortedDays_def set_sortArray\<close>)
  ultimately have "distinct (map ?t (map DailyBucket.date (sortedDays feed)))"
    by (simp only: distinct_map)
  then show "distinct (map (\<lambda>b. ?t (DailyBucket.date b)) (sortedDays feed))"
    by (simp add: comp_def)
qed

lemma sortedDays_determined:
  assumes v1: "list_all (\<lambda>item. validDate (dateKeyOf item)) feed1"
    and v2: "list_all (\<lambda>item. validDate (dateKeyOf item)) feed2"
    and eq: "map_of (groupByDay feed1) = map_of (groupByDay feed2)"
  shows "sortedDays feed1 = sortedDays feed2"
proof -
  let ?f = "\<lambda>b. the (getTime (DailyBucket.date b))"
  have "set (groupByDay feed1) = set (groupByDay feed2)"
    using eq map_of_inject_set [OF groupByDay_distinct groupByDay_distinct] by blast
  then have sets: "set (sortedDays feed1) = set (sortedDays feed2)"
    by (simp add: sortedDays_def set_sortArray set_objectValues)
  then have "set (map ?f (sortedDays feed1)) = set (map ?f (sortedDays feed2))"
    by simp
  with sortedDays_times [OF v1] sortedDays_times [OF v2]
  have maps: "map ?f (sortedDays feed1) = map ?f (sortedDays feed2)"
    by (intro sorted_distinct_set_unique)
  have "inj_on ?f (set (sortedDays feed1))"
    using sortedDays_times(2) [OF v1] by (simp add: distinct_map)
  with sets have "inj_on ?f (set (sortedDays feed1) \<union> set (sortedDays feed2))"
    by simp
  with maps show ?thesis
    by (simp add: inj_on_map_eq_map)
qed

lemma map_of_groupByDay_uncounted:
  assumes u: "\<not> countsAsEarning item \<and> \<not> countsAsRedemption item"
  shows "map_of (groupByDay (xs @ item # ys)) k =
          (if k = dateKeyOf item \<and> k \<notin> set objectPrototypeKeys \<and> \<not> hasBucket k (xs @ ys)
           then Some (emptyBucket k)
           else map_of (groupByDay (xs @ ys)) k)"
proof (cases "k = dateKeyOf item \<and> k \<notin> set objectPrototypeKeys \<and> \<not> hasBucket k (xs @ ys)")
  case True
  then have np: "k \<notin> set objectPrototypeKeys" and nh: "\<not> hasBucket k (xs @ ys)"
    and k: "k = dateKeyOf item"
    by blast+
  have "k \<notin> dateKeyOf ` set (xs @ ys)"
    using np nh by (simp add: hasBucket_def)
  then have e: "bucketOf k (xs @ ys) = emptyBucket k"
    by (rule bucketOf_no_item)
  have h: "hasBucket k (xs @ item # ys)"
    using k np by (simp add: hasBucket_def)
  have "map_of (groupByDay (xs @ item # ys)) k = Some (emptyBucket k)"
    using h e u by (simp add: map_of_groupByDay bucketOf_without_uncounted)
  then show ?thesis
    by (simp only: if_P [OF True])
next
  case False
  then have hb: "hasBucket k (xs @ item # ys) = hasBucket k (xs @ ys)"
    by (auto simp: hasBucket_def)
  have "map_of (groupByDay (xs @ item # ys)) k = map_of (groupByDay (xs @ ys)) k"
    using u by (simp add: map_of_groupByDay hb bucketOf_without_uncounted)
  then show ?thesis
    by (simp only: if_not_P [OF False])
qed

lemma chartData_without_uncounted_earlier:
  assumes "\<not> countsAsEarning item \<and> \<not> countsAsRedemption item"
    and "dateKeyOf item \<in> dateKeyOf ` set xs"
  shows "chartData tz timelineData (Some (xs @ item # ys)) totalPoints
         = chartData tz timelineData (Some (xs @ ys)) totalPoints"
proof -
  from assms have "groupByDay (xs @ item # ys) = groupByDay (xs @ ys)" and "xs \<noteq> []"
    by (auto simp: groupByDay_without_uncounted)
  then show ?thesis
    by (simp add: chartData_cases hasLength_def elems_def chartDataFromFeed_def sortedDays_def)
qed

lemma chartData_without_uncounted_valid:
  assumes u: "\<not> countsAsEarning item \<and> \<not> countsAsRedemption item"
    and other: "dateKeyOf item \<in> dateKeyOf ` set (xs @ ys)"
    and valid: "list_all (\<lambda>i. validDate (dateKeyOf i)) (xs @ ys)"
  shows "chartData tz timelineData (Some (xs @ item # ys)) totalPoints
         = chartData tz timelineData (Some (xs @ ys)) totalPoints"
proof -
  from other valid have "validDate (dateKeyOf item)"
    by (auto simp: list_all_iff)
  with valid have valid': "list_all (\<lambda>i. validDate (dateKeyOf i)) (xs @ item # ys)"
    by simp
  have "map_of (groupByDay (xs @ item # ys)) k = map_of (groupByDay (xs @ ys)) k" for k
    unfolding map_of_groupByDay_uncounted [OF u] using other by (auto simp: hasBucket_def)
  then have "map_of (groupByDay (xs @ item # ys)) = map_of (groupByDay (xs @ ys))"
    by (rule ext)
  with valid' valid have "sortedDays (xs @ item # ys) = sortedDays (xs @ ys)"
    by (rule sortedDays_determined)
  moreover from other have "xs @ ys \<noteq> []" by auto
  ultimately show ?thesis
    by (simp add: chartData_cases hasLength_def elems_def chartDataFromFeed_def)
qed

text \<open>Every bucket of the dictionary gives a point of the output.\<close>

lemma feedProgression_point_of_bucket:
  "b \<in> set days \<Longrightarrow>
   \<exists>p \<in> set (feedProgression tz rt days).
     rawDate p = DailyBucket.date b \<and> Daily p = points b \<and> Redeemed p = redeemed b
     \<and> Net p = points b - redeemed b \<and> Redemptions p = redemptions b"
  by (induction days arbitrary: rt) (auto simp: Let_def)

lemma chartData_point_of_bucket:
  assumes "map_of (groupByDay feed) k = Some b"
  shows "\<exists>p \<in> set (chartData tz timelineData (Some feed) totalPoints).
           rawDate p = k \<and> Daily p = points b \<and> Redeemed p = redeemed b
           \<and> Net p = points b - redeemed b \<and> Redemptions p = redemptions b"
proof -
  from assms have mem: "(k, b) \<in> set (groupByDay feed)"
    by (rule map_of_SomeD)
  then have "feed \<noteq> []"
    by (auto simp: groupByDay_def)
  from mem groupByDay_datesMatchKeys [of feed] have k: "DailyBucket.date b = k"
    by (auto simp: datesMatchKeys_def list_all_iff)
  from mem have "b \<in> set (sortedDays feed)"
    by (force simp: sortedDays_def set_sortArray set_objectValues)
  from feedProgression_point_of_bucket [OF this, of tz 0]
  obtain p where p: "p \<in> set (chartDataFromFeed tz feed)"
      "rawDate p = k" "Daily p = points b" "Redeemed p = redeemed b"
      "Net p = points b - redeemed b" "Redemptions p = redemptions b"
    unfolding chartDataFromFeed_def k by blast
  let ?q = "p\<lparr>Points :=
              (if adjustment (orZero totalPoints) (chartDataFromFeed tz feed) = 0 then Points p
               else numAdd (Points p)
                      (adjustment (orZero totalPoints) (chartDataFromFeed tz feed)))\<rparr>"
  have "?q \<in> set (adjustPoints (orZero totalPoints) (chartDataFromFeed tz feed))"
    using p(1) by (simp add: adjustPoints_map)
  then have "?q \<in> set (chartData tz timelineData (Some feed) totalPoints)"
    using \<open>feed \<noteq> []\<close> by (simp add: chartData_cases hasLength_def elems_def)
  moreover have "rawDate ?q = k \<and> Daily ?q = points b \<and> Redeemed ?q = redeemed b
           \<and> Net ?q = points b - redeemed b \<and> Redemptions ?q = redemptions b"
    using p by simp
  ultimately show ?thesis by blast
qed

lemma uncounted_item_alone_gives_zero_point:
  assumes u: "\<not> countsAsEarning item \<and> \<not> countsAsRedemption item"
    and alone: "dateKeyOf item \<notin> dateKeyOf ` set (xs @ ys)"
    and np: "dateKeyOf item \<notin> set objectPrototypeKeys"
  shows "\<exists>p \<in> set (chartData tz timelineData (Some (xs @ item # ys)) totalPoints).
           rawDate p = dateKeyOf item \<and> Daily p = 0 \<and> Redeemed p = 0 \<and> Net p = 0
           \<and> Redemptions p = 0"
proof -
  have "map_of (groupByDay (xs @ item # ys)) (dateKeyOf item)
        = Some (emptyBucket (dateKeyOf item))"
    unfolding map_of_groupByDay_uncounted [OF u] using alone np by (simp add: hasBucket_def)
  from chartData_point_of_bucket [OF this, of tz timelineData totalPoints]
  show ?thesis by (simp add: emptyBucket_def)
qed

text \<open>
  Claim C2, as amended. A feed item that meets neither condition (such as an activity
  with \<open>points_change = -5\<close> or a redemption with \<open>points_change = 5\<close>) adds nothing to
  the points, activities, redeemed or redemptions of any bucket: the dictionary built
  from the feed with the item is the one built without it, except that the date of the
  item gets a bucket of zeros when no other item of the feed has that date, so that a
  date whose items are all of this kind still gives a chart point. The output is the
  same as without the item when another item of the feed has the same date: for feeds
  whose dates are valid wherever that item stands, and for any timestamps when it stands
  earlier in the feed.
\<close>

theorem uncounted_item_only_creates_its_bucket:
  "(\<not> countsAsEarning item \<and> \<not> countsAsRedemption item \<longrightarrow>
      (\<forall>k. map_of (groupByDay (xs @ item # ys)) k =
            (if k = dateKeyOf item \<and> k \<notin> set objectPrototypeKeys \<and> \<not> hasBucket k (xs @ ys)
             then Some (emptyBucket k)
             else map_of (groupByDay (xs @ ys)) k)))
   \<and> (\<not> countsAsEarning item \<and> \<not> countsAsRedemption item
       \<and> dateKeyOf item \<notin> dateKeyOf ` set (xs @ ys)
       \<and> dateKeyOf item \<notin> set objectPrototypeKeys \<longrightarrow>
      (\<exists>p \<in> set (chartData tz timelineData (Some (xs @ item # ys)) totalPoints).
         rawDate p = dateKeyOf item \<and> Daily p = 0 \<and> Redeemed p = 0 \<and> Net p = 0
         \<and> Redemptions p = 0))
   \<and> (\<not> countsAsEarning item \<and> \<not> countsAsRedemption item
       \<and> dateKeyOf item \<in> dateKeyOf ` set (xs @ ys)
       \<and> list_all (\<lambda>i. validDate (dateKeyOf i)) (xs @ ys) \<longrightarrow>
      chartData tz timelineData (Some (xs @ item # ys)) totalPoints
        = chartData tz timelineData (Some (xs @ ys)) totalPoints)
   \<and> (\<not> countsAsEarning item \<and> \<not> countsAsRedemption item
       \<and> dateKeyOf item \<in> dateKeyOf ` set xs \<longrightarrow>
      chartData tz timelineData (Some (xs @ item # ys)) totalPoints
        = chartData tz timelineData (Some (xs @ ys)) totalPoints)"
  using map_of_groupByDay_uncounted [of item xs ys]
    uncounted_item_alone_gives_zero_point [of item xs ys tz timelineData totalPoints]
    chartData_without_uncounted_valid [of item xs ys tz timelineData totalPoints]
    chartData_without_uncounted_earlier [of item xs tz timelineData ys totalPoints]
  by blast

theorem uncounted_item_only_creates_its_bucket_witness:
  "\<not> countsAsEarning uncounted_redemption \<and> \<not> countsAsRedemption uncounted_redemption
   \<and> dateKeyOf uncounted_redemption \<in> dateKeyOf ` set ([] @ [earning_item, uncounted_activity])
   \<and> list_all (\<lambda>i. validDate (dateKeyOf i)) ([] @ [earning_item, uncounted_activity])
   \<and> chartData 0 None (Some ([] @ uncounted_redemption # [earning_item, uncounted_activity]))
        (Some 10)
      = chartData 0 None (Some ([] @ [earning_item, uncounted_activity])) (Some 10)
   \<and> dateKeyOf uncounted_redemption \<in> dateKeyOf ` set [earning_item]
   \<and> chartData 0 None (Some ([earning_item] @ uncounted_redemption # [uncounted_activity]))
        (Some 10)
      = chartData 0 None (Some ([earning_item] @ [uncounted_activity])) (Some 10)
   \<and> \<not> countsAsEarning uncounted_activity \<and> \<not> countsAsRedemption uncounted_activity
   \<and> dateKeyOf uncounted_activity = ''2025-09-08''
   \<and> dateKeyOf uncounted_activity \<notin> dateKeyOf ` set ([earning_item] @ [])
   \<and> dateKeyOf uncounted_activity \<notin> set objectPrototypeKeys
   \<and> map_of (groupByDay ([earning_item] @ uncounted_activity # [])) ''2025-09-08''
      = Some (emptyBucket ''2025-09-08'')
   \<and> map_of (groupByDay ([earning_item] @ uncounted_activity # [])) ''2025-09-07''
      = map_of (groupByDay ([earning_item] @ [])) ''2025-09-07''
   \<and> (\<exists>p \<in> set (chartData 0 None (Some ([earning_item] @ uncounted_activity # [])) (Some 10)).
         rawDate p = dateKeyOf uncounted_activity \<and> Daily p = 0 \<and> Redeemed p = 0 \<and> Net p = 0
         \<and> Redemptions p = 0)"
proof -
  have r: "\<not> countsAsEarning uncounted_redemption \<and> \<not> countsAsRedemption uncounted_redemption
      \<and> dateKeyOf uncounted_redemption \<in> dateKeyOf ` set [earning_item]"
    by code_simp
  have v: "\<not> countsAsEarning uncounted_redemption \<and> \<not> countsAsRedemption uncounted_redemption
      \<and> dateKeyOf uncounted_redemption
          \<in> dateKeyOf ` set ([] @ [earning_item, uncounted_activity])
      \<and> list_all (\<lambda>i. validDate (dateKeyOf i)) ([] @ [earning_item, uncounted_activity])"
    by code_simp
  have a: "\<not> countsAsEarning uncounted_activity \<and> \<not> countsAsRedemption uncounted_activity"
    by code_simp
  have k: "dateKeyOf uncounted_activity = ''2025-09-08''"
    by code_simp
  have l: "\<not> countsAsEarning uncounted_activity \<and> \<not> countsAsRedemption uncounted_activity
      \<and> dateKeyOf uncounted_activity \<notin> dateKeyOf ` set ([earning_item] @ [])
      \<and> dateKeyOf uncounted_activity \<notin> set objectPrototypeKeys"
    by code_simp
  have c: "(''2025-09-08'' = dateKeyOf uncounted_activity
            \<and> ''2025-09-08'' \<notin> set objectPrototypeKeys
            \<and> \<not> hasBucket ''2025-09-08'' ([earning_item] @ [])) = True"
      "(''2025-09-07'' = dateKeyOf uncounted_activity
            \<and> ''2025-09-07'' \<notin> set objectPrototypeKeys
            \<and> \<not> hasBucket ''2025-09-07'' ([earning_item] @ [])) = False"
    by code_simp+
  note t = uncounted_item_only_creates_its_bucket
  from t [THEN conjunct2, THEN conjunct2, THEN conjunct1, rule_format, OF v]
  have 0: "chartData 0 None
        (Some ([] @ uncounted_redemption # [earning_item, uncounted_activity])) (Some 10)
      = chartData 0 None (Some ([] @ [earning_item, uncounted_activity])) (Some 10)" .
  from t [THEN conjunct2, THEN conjunct2, THEN conjunct2, rule_format, OF r]
  have 1: "chartData 0 None (Some ([earning_item] @ uncounted_redemption # [uncounted_activity]))
        (Some 10)
      = chartData 0 None (Some ([earning_item] @ [uncounted_activity])) (Some 10)" .
  from t [THEN conjunct1, rule_format, OF a, of "[earning_item]" "[]" "''2025-09-08''"]
  have 2: "map_of (groupByDay ([earning_item] @ uncounted_activity # [])) ''2025-09-08''
      = Some (emptyBucket ''2025-09-08'')"
    unfolding c by (simp only: if_True)
  from t [THEN conjunct1, rule_format, OF a, of "[earning_item]" "[]" "''2025-09-07''"]
  have 3: "map_of (groupByDay ([earning_item] @ uncounted_activity # [])) ''2025-09-07''
      = map_of (groupByDay ([earning_item] @ [])) ''2025-09-07''"
    unfolding c by (simp only: if_False)
  from t [THEN conjunct2, THEN conjunct1, rule_format, OF l, of 0 None "Some 10"]
  have 4: "\<exists>p \<in> set (chartData 0 None (Some ([earning_item] @ uncounted_activity # []))
                       (Some 10)).
         rawDate p = dateKeyOf uncounted_activity \<and> Daily p = 0 \<and> Redeemed p = 0 \<and> Net p = 0
         \<and> Redemptions p = 0" .
  from r v a k l 0 1 2 3 4 show ?thesis by blast
qed

text \<open>
  The claim as stated fails where the only item of a date is not counted: the feed with
  the item has a point for 8 September, the feed without it has none.
\<close>

theorem uncounted_items_still_give_a_point:
  "\<not> countsAsEarning uncounted_activity \<and> \<not> countsAsRedemption uncounted_activity
   \<and> map dateKeyOf [earning_item, uncounted_activity] = [''2025-09-07'', ''2025-09-08'']
   \<and> map rawDate (chartData 0 None (Some [earning_item, uncounted_activity]) (Some 10))
      = [''2025-09-07'', ''2025-09-08'']
   \<and> map rawDate (chartData 0 None (Some [earning_item]) (Some 10)) = [''2025-09-07'']
   \<and> chartData 0 None (Some [earning_item, uncounted_activity]) (Some 10)
      \<noteq> chartData 0 None (Some [earning_item]) (Some 10)"
proof -
  have vals: "\<not> countsAsEarning uncounted_activity \<and> \<not> countsAsRedemption uncounted_activity
      \<and> map dateKeyOf [earning_item, uncounted_activity] = [''2025-09-07'', ''2025-09-08'']
      \<and> map rawDate (chartData 0 None (Some [earning_item, uncounted_activity]) (Some 10))
         = [''2025-09-07'', ''2025-09-08'']
      \<and> map rawDate (chartData 0 None (Some [earning_item]) (Some 10)) = [''2025-09-07'']"
    by code_simp
  then have "map rawDate (chartData 0 None (Some [earning_item, uncounted_activity]) (Some 10))
      \<noteq> map rawDate (chartData 0 None (Some [earning_item]) (Some 10))"
    by simp
  then have "chartData 0 None (Some [earning_item, uncounted_activity]) (Some 10)
      \<noteq> chartData 0 None (Some [earning_item]) (Some 10)"
    by auto
  with vals show ?thesis by simp
qed

end
